theory Spec2Isabelle
  imports Complex_Main "HOL-Library.Char_ord" "HOL-Library.List_Lexorder" "HOL-Library.Multiset"
begin

section \<open>Python primitives used by the pipeline\<close>

text \<open>
  Strings are byte lists (UTF-8); the order on strings is the lexicographic order on
  bytes, which is Python's order on \<^verbatim>\<open>str\<close> (code points) and SQLite's BINARY collation.
  Python's \<^verbatim>\<open>int\<close> is \<^typ>\<open>int\<close>; on a positive divisor \<^verbatim>\<open>//\<close> and \<^verbatim>\<open>%\<close> are \<open>div\<close> and
  \<open>mod\<close> (both round towards minus infinity).
\<close>

text \<open>The character of a decimal digit \<open>d < 10\<close>.\<close>

definition digit_char :: "nat \<Rightarrow> char" where
  "digit_char d = ''0123456789'' ! d"

text \<open>\<^verbatim>\<open>str(n)\<close> for a non-negative integer: its decimal digits, most significant first.\<close>

fun dec_digits :: "nat \<Rightarrow> string" where
  "dec_digits n =
     (if n < 10 then [digit_char n] else dec_digits (n div 10) @ [digit_char (n mod 10)])"

declare dec_digits.simps [simp del]

text \<open>
  The format specification \<^verbatim>\<open>{x:02d}\<close>: the sign (only \<^verbatim>\<open>-\<close>) followed by the decimal
  digits, filled with zeros after the sign up to a total width of two; a longer number is
  not truncated.
\<close>

definition fmt_02d :: "int \<Rightarrow> string" where
  "fmt_02d x =
     (if x < 0 then CHR ''-'' # dec_digits (nat (- x))
      else replicate (2 - length (dec_digits (nat x))) CHR ''0'' @ dec_digits (nat x))"

section \<open>Filename sequencer\<close>

text \<open>
  \<^verbatim>\<open>_first_n_filenames\<close> of \<^verbatim>\<open>bdi_api/s1/exercise.py\<close>. The loop body, for the index \<open>i\<close>:
\<close>

definition filename_of_index :: "int \<Rightarrow> string" where
  "filename_of_index i =
     (let total_seconds = i * 5;
          hh = total_seconds div 3600;
          mm = (total_seconds mod 3600) div 60;
          ss = total_seconds mod 60
      in fmt_02d hh @ fmt_02d mm @ fmt_02d ss @ ''Z.json.gz'')"

text \<open>\<^verbatim>\<open>range(int(file_limit))\<close> is empty for a negative limit.\<close>

definition first_n_filenames :: "int \<Rightarrow> string list" where
  "first_n_filenames file_limit = map (\<lambda>i. filename_of_index (int i)) [0..<nat file_limit]"

text \<open>The copy of the function in \<^verbatim>\<open>bdi_api/s4/exercise.py\<close> has the same body.\<close>

definition s4_first_n_filenames :: "int \<Rightarrow> string list" where
  "s4_first_n_filenames file_limit =
     map (\<lambda>i. let total_seconds = int i * 5;
                   hh = total_seconds div 3600;
                   mm = (total_seconds mod 3600) div 60;
                   ss = total_seconds mod 60
               in fmt_02d hh @ fmt_02d mm @ fmt_02d ss @ ''Z.json.gz'')
         [0..<nat file_limit]"

text \<open>
  Reading a filename back as a time of day, for the statement of the ordering property:
  the name without its nine-character suffix \<^verbatim>\<open>Z.json.gz\<close> is a digit string whose last
  two digits are the seconds, the two before them the minutes and the rest the hours.
\<close>

definition digit_val :: "char \<Rightarrow> nat" where
  "digit_val c = of_char c - 48"

definition nat_of_digits :: "string \<Rightarrow> nat" where
  "nat_of_digits s = foldl (\<lambda>acc c. 10 * acc + digit_val c) 0 s"

definition hms_seconds :: "string \<Rightarrow> nat" where
  "hms_seconds fname =
     (let ds = take (length fname - 9) fname;
          k = length ds
      in nat_of_digits (take (k - 4) ds) * 3600
         + nat_of_digits (take 2 (drop (k - 4) ds)) * 60
         + nat_of_digits (drop (k - 2) ds))"

section \<open>Snapshots, tables and the file system\<close>

text \<open>
  A JSON number as \<^verbatim>\<open>json.load\<close> returns it: a Python \<^verbatim>\<open>int\<close> of any size, or a \<^verbatim>\<open>float\<close>.
  A float is a finite double and is taken as the real number it denotes (NaN and the
  infinities are outside the model).
\<close>

datatype number = PyInt int | PyFloat real

text \<open>
  A raw snapshot file as \<^verbatim>\<open>json.load\<close> returns it. The model covers snapshots whose fields
  have the types of the feed: \<^verbatim>\<open>hex\<close>, \<^verbatim>\<open>r\<close>, \<^verbatim>\<open>t\<close> and \<^verbatim>\<open>emergency\<close> are strings
  (well-formed Unicode, held as UTF-8 bytes), \<^verbatim>\<open>now\<close>, \<^verbatim>\<open>lat\<close>, \<^verbatim>\<open>lon\<close>, \<^verbatim>\<open>alt_baro\<close> and
  \<^verbatim>\<open>gs\<close> are numbers. A field of an observation is \<open>None\<close> when \<^verbatim>\<open>a.get(...)\<close> returns
  \<^verbatim>\<open>None\<close>: the key is absent or its value is null. \<open>snap_now\<close> and \<open>snap_aircraft\<close> are
  \<open>None\<close> when the key is absent, where \<^verbatim>\<open>payload.get\<close> takes its default. The
  altitude \<^verbatim>\<open>"ground"\<close> that the feed gives for an aircraft on the ground is outside the
  model. A file is \<open>Unreadable\<close> when \<^verbatim>\<open>open\<close> or \<^verbatim>\<open>json.load\<close> raises on it, or when its
  content is not a JSON object of this shape, so that the loop over it raises.
\<close>

record observation =
  obs_hex :: "string option"
  obs_r :: "string option"
  obs_t :: "string option"
  obs_lat :: "number option"
  obs_lon :: "number option"
  obs_alt_baro :: "number option"
  obs_gs :: "number option"
  obs_emergency :: "string option"

record snapshot =
  snap_now :: "number option"
  snap_aircraft :: "observation list option"

datatype raw_file = Unreadable | Snapshot snapshot

text \<open>
  The two tables that \<^verbatim>\<open>_init_db\<close> creates; a nullable column is an option. The columns
  of \<^verbatim>\<open>positions\<close> declared REAL hold the real number stored.
\<close>

record aircraft_row =
  row_icao :: string
  row_registration :: "string option"
  row_type :: "string option"

record position_row =
  pos_id :: nat
  pos_icao :: string
  pos_timestamp :: real
  pos_lat :: real
  pos_lon :: real
  pos_altitude_baro :: "real option"
  pos_ground_speed :: "real option"
  pos_had_emergency :: int

text \<open>
  The database file: both tables in rowid order, and the AUTOINCREMENT counter of
  \<^verbatim>\<open>positions\<close> (the largest id handed out so far).
\<close>

record db =
  db_aircraft :: "aircraft_row list"
  db_positions :: "position_row list"
  db_seq :: nat

text \<open>
  A directory is an association list from entry names to file contents, read with
  \<open>map_of\<close>: a name bound twice stands for its first binding. The state holds the raw
  directory of the day and the prepared directory of the day, whose only entry is the
  database file \<^verbatim>\<open>aircraft.sqlite\<close> (\<open>None\<close>: no such file).
\<close>

type_synonym directory = "(string \<times> raw_file) list"

record fs =
  raw_dir :: directory
  prepared_db :: "db option"

datatype error =
    NoRawFiles  \<comment> \<open>\<^verbatim>\<open>RuntimeError("No raw files found. Run download first.")\<close>\<close>
  | ParseError  \<comment> \<open>the exception of an unreadable file\<close>
  | NotPrepared \<comment> \<open>\<^verbatim>\<open>HTTPException(status_code=400)\<close>\<close>
  | OverflowError \<comment> \<open>\<^verbatim>\<open>sqlite3\<close>: Python int too large to convert to SQLite INTEGER\<close>

datatype dir_name = RawDayDir | PreparedDayDir

text \<open>\<^verbatim>\<open>_ensure_clean_dir\<close>: delete the directory if it exists, recreate it empty.\<close>

fun ensure_clean_dir :: "dir_name \<Rightarrow> fs \<Rightarrow> fs" where
  "ensure_clean_dir RawDayDir s = s\<lparr>raw_dir := []\<rparr>"
| "ensure_clean_dir PreparedDayDir s = s\<lparr>prepared_db := None\<rparr>"

text \<open>\<^verbatim>\<open>_init_db\<close>: unlink the database file if it exists, create the empty tables.\<close>

definition empty_db :: db where
  "empty_db = \<lparr>db_aircraft = [], db_positions = [], db_seq = 0\<rparr>"

definition init_db :: "fs \<Rightarrow> fs" where
  "init_db s = s\<lparr>prepared_db := Some empty_db\<rparr>"

text \<open>\<^verbatim>\<open>str.endswith\<close>.\<close>

definition endswith :: "string \<Rightarrow> string \<Rightarrow> bool" where
  "endswith s suf \<longleftrightarrow> length suf \<le> length s \<and> drop (length s - length suf) s = suf"

text \<open>
  \<^verbatim>\<open>sorted(raw_day_dir.glob("*.json.gz"))\<close>: the entry names that end in \<^verbatim>\<open>.json.gz\<close>, each
  once, in ascending order.
\<close>

definition glob_json_gz :: "directory \<Rightarrow> string list" where
  "glob_json_gz d = sort (remdups (filter (\<lambda>name. endswith name ''.json.gz'') (map fst d)))"

text \<open>Opening and loading one of the listed files.\<close>

definition load_file :: "directory \<Rightarrow> string \<Rightarrow> raw_file" where
  "load_file d name = (case map_of d name of None \<Rightarrow> Unreadable | Some f \<Rightarrow> f)"

section \<open>Binding Python values to SQLite\<close>

text \<open>
  \<^verbatim>\<open>sqlite3\<close> binds a Python \<^verbatim>\<open>int\<close> as a signed 64-bit integer and raises
  \<^verbatim>\<open>OverflowError\<close> when it does not fit; a \<^verbatim>\<open>float\<close>, a \<^verbatim>\<open>str\<close> and \<^verbatim>\<open>None\<close> always
  bind.
\<close>

definition fits_int64 :: "int \<Rightarrow> bool" where
  "fits_int64 i \<longleftrightarrow> - (2 ^ 63) \<le> i \<and> i < 2 ^ 63"

fun binds :: "number \<Rightarrow> bool" where
  "binds (PyInt i) = fits_int64 i"
| "binds (PyFloat r) = True"

fun binds_opt :: "number option \<Rightarrow> bool" where
  "binds_opt None = True"
| "binds_opt (Some x) = binds x"

text \<open>
  A column of REAL affinity stores a bound integer as a double: the integer itself up to
  \<open>2 ^ 53\<close> in magnitude, beyond that the integer rounded to 53 significant bits, to the
  nearest and on a tie to the even one. \<open>excess_bits a\<close> is the number of low bits that
  rounding drops.
\<close>

fun excess_bits :: "nat \<Rightarrow> nat" where
  "excess_bits a = (if a < 2 ^ 53 then 0 else Suc (excess_bits (a div 2)))"

declare excess_bits.simps [simp del]

definition int_to_double :: "int \<Rightarrow> int" where
  "int_to_double i =
     (if \<bar>i\<bar> \<le> 2 ^ 53 then i
      else
        let a = nat \<bar>i\<bar>;
            e = excess_bits a;
            q = a div 2 ^ e;
            r = a mod 2 ^ e;
            q' = (if 2 ^ e < 2 * r \<or> (2 * r = 2 ^ e \<and> odd q) then Suc q else q)
        in sgn i * int (q' * 2 ^ e))"

fun real_column :: "number \<Rightarrow> real" where
  "real_column (PyInt i) = real_of_int (int_to_double i)"
| "real_column (PyFloat r) = r"

section \<open>The prepare pipeline\<close>

text \<open>Python's truth value of \<^verbatim>\<open>a.get(key)\<close> for a string field: false for None and \<^verbatim>\<open>""\<close>.\<close>

fun truthy :: "string option \<Rightarrow> bool" where
  "truthy None = False"
| "truthy (Some s) = (s \<noteq> [])"

text \<open>
  \<^verbatim>\<open>INSERT INTO aircraft ... ON CONFLICT(icao) DO UPDATE SET registration =
  excluded.registration, type = excluded.type\<close>: the row with this primary key is
  updated in place, and a new row is appended when there is none.
\<close>

fun upsert_aircraft ::
  "string \<Rightarrow> string option \<Rightarrow> string option \<Rightarrow> aircraft_row list \<Rightarrow> aircraft_row list" where
  "upsert_aircraft icao registration ac_type [] =
     [\<lparr>row_icao = icao, row_registration = registration, row_type = ac_type\<rparr>]"
| "upsert_aircraft icao registration ac_type (row # rows) =
     (if row_icao row = icao
      then row\<lparr>row_registration := registration, row_type := ac_type\<rparr> # rows
      else row # upsert_aircraft icao registration ac_type rows)"

text \<open>
  A statement either completes or raises; \<open>None\<close> stands for completion. The database
  returned is the one the connection sees afterwards, inside the open transaction.
\<close>

type_synonym outcome = "error option \<times> db"

text \<open>
  \<^verbatim>\<open>INSERT INTO positions (...)\<close> with the parameters \<^verbatim>\<open>(icao, timestamp, lat, lon, alt,
  gs, emergency)\<close>: a new row with the next id, unless a parameter does not bind.
\<close>

definition insert_position ::
  "string \<Rightarrow> number \<Rightarrow> number \<Rightarrow> number \<Rightarrow> number option \<Rightarrow> number option \<Rightarrow> int \<Rightarrow> db
     \<Rightarrow> outcome" where
  "insert_position icao timestamp lat lon alt gs emergency d =
     (if binds timestamp \<and> binds lat \<and> binds lon \<and> binds_opt alt \<and> binds_opt gs
           \<and> fits_int64 emergency
      then (None,
            d\<lparr>db_positions := db_positions d @
                 [\<lparr>pos_id = Suc (db_seq d), pos_icao = icao,
                   pos_timestamp = real_column timestamp,
                   pos_lat = real_column lat, pos_lon = real_column lon,
                   pos_altitude_baro = map_option real_column alt,
                   pos_ground_speed = map_option real_column gs,
                   pos_had_emergency = emergency\<rparr>],
              db_seq := Suc (db_seq d)\<rparr>)
      else (Some OverflowError, d))"

text \<open>The body of the inner loop of \<^verbatim>\<open>prepare_data\<close>, for one observation \<open>a\<close>.\<close>

definition process_observation :: "number \<Rightarrow> observation \<Rightarrow> db \<Rightarrow> outcome" where
  "process_observation timestamp a d =
     (case obs_hex a of
        None \<Rightarrow> (None, d)
      | Some icao \<Rightarrow>
          if \<not> truthy (Some icao) then (None, d)
          else
            let registration = obs_r a;
                ac_type = obs_t a;
                alt = obs_alt_baro a;
                gs = obs_gs a;
                emergency = (if truthy (obs_emergency a) then 1 else 0);
                d1 = d\<lparr>db_aircraft := upsert_aircraft icao registration ac_type (db_aircraft d)\<rparr>
            in (case (obs_lat a, obs_lon a) of
                  (Some lat, Some lon) \<Rightarrow>
                    insert_position icao timestamp lat lon alt gs emergency d1
                | _ \<Rightarrow> (None, d1)))"

text \<open>The inner loop \<^verbatim>\<open>for a in payload.get("aircraft", [])\<close>: an exception ends it.\<close>

fun process_observations :: "number \<Rightarrow> observation list \<Rightarrow> db \<Rightarrow> outcome" where
  "process_observations timestamp [] d = (None, d)"
| "process_observations timestamp (a # as) d =
     (case process_observation timestamp a d of
        (Some e, d') \<Rightarrow> (Some e, d')
      | (None, d') \<Rightarrow> process_observations timestamp as d')"

text \<open>\<^verbatim>\<open>payload.get("now", 0.0)\<close> and \<^verbatim>\<open>payload.get("aircraft", [])\<close>.\<close>

definition payload_now :: "snapshot \<Rightarrow> number" where
  "payload_now payload = (case snap_now payload of None \<Rightarrow> PyFloat 0 | Some t \<Rightarrow> t)"

definition payload_aircraft :: "snapshot \<Rightarrow> observation list" where
  "payload_aircraft payload = (case snap_aircraft payload of None \<Rightarrow> [] | Some as \<Rightarrow> as)"

text \<open>
  The body of the outer loop, for one loaded file. An exception leaves the function, and
  with it what the transaction held.
\<close>

definition process_file :: "raw_file \<Rightarrow> db \<Rightarrow> error + db" where
  "process_file f d =
     (case f of
        Unreadable \<Rightarrow> Inl ParseError
      | Snapshot payload \<Rightarrow>
          let timestamp = payload_now payload
          in (case process_observations timestamp (payload_aircraft payload) d of
                (Some e, d') \<Rightarrow> Inl e
              | (None, d') \<Rightarrow> Inr d'))"

text \<open>The outer loop: the first exception ends it.\<close>

fun process_files :: "raw_file list \<Rightarrow> db \<Rightarrow> error + db" where
  "process_files [] d = Inr d"
| "process_files (f # fs) d =
     (case process_file f d of Inl e \<Rightarrow> Inl e | Inr d' \<Rightarrow> process_files fs d')"

text \<open>
  \<^verbatim>\<open>prepare_data\<close> of \<^verbatim>\<open>bdi_api/s1/exercise.py\<close>. The rows are written in one transaction
  that is committed after the loop, so an exception inside the loop leaves the database
  as \<^verbatim>\<open>_init_db\<close> committed it.
\<close>

definition prepare_data :: "fs \<Rightarrow> (error + string) \<times> fs" where
  "prepare_data s =
     (let s1 = ensure_clean_dir PreparedDayDir s;
          raw_files = glob_json_gz (raw_dir s1)
      in if raw_files = [] then (Inl NoRawFiles, s1)
         else
           let s2 = init_db s1
           in case process_files (map (load_file (raw_dir s2)) raw_files) empty_db of
                Inl e \<Rightarrow> (Inl e, s2)
              | Inr d \<Rightarrow> (Inr ''OK'', s2\<lparr>prepared_db := Some d\<rparr>))"

section \<open>The query endpoints\<close>

text \<open>\<^verbatim>\<open>LIMIT ? OFFSET ?\<close> of SQLite: a negative limit is no limit, a negative offset is 0.\<close>

definition sql_limit_offset :: "int \<Rightarrow> int \<Rightarrow> 'a list \<Rightarrow> 'a list" where
  "sql_limit_offset limit offset rows =
     (let rest = drop (nat offset) rows in if limit < 0 then rest else take (nat limit) rest)"

text \<open>
  \<^verbatim>\<open>list_aircraft\<close>: \<^verbatim>\<open>SELECT ... FROM aircraft ORDER BY icao ASC LIMIT ? OFFSET ?\<close> with
  the parameters \<^verbatim>\<open>(num_results, offset)\<close>, both bound as integers.
\<close>

definition list_aircraft :: "fs \<Rightarrow> int \<Rightarrow> int \<Rightarrow> error + aircraft_row list" where
  "list_aircraft s num_results page =
     (case prepared_db s of
        None \<Rightarrow> Inl NotPrepared
      | Some d \<Rightarrow>
          let offset = page * num_results
          in if \<not> (fits_int64 num_results \<and> fits_int64 offset) then Inl OverflowError
             else Inr (sql_limit_offset num_results offset (sort_key row_icao (db_aircraft d))))"

record position_out =
  out_timestamp :: real
  out_lat :: real
  out_lon :: real

text \<open>\<^verbatim>\<open>get_aircraft_position\<close>: the body is a fixed return value; it reads no file.\<close>

definition get_aircraft_position :: "fs \<Rightarrow> string \<Rightarrow> int \<Rightarrow> int \<Rightarrow> position_out list" where
  "get_aircraft_position s icao num_results page =
     [\<lparr>out_timestamp = 1609275898.6, out_lat = 30.404617, out_lon = - 86.476566\<rparr>]"

record statistics =
  max_altitude_baro :: real
  max_ground_speed :: real
  had_emergency :: bool

text \<open>\<^verbatim>\<open>get_aircraft_statistics\<close>: likewise a fixed return value.\<close>

definition get_aircraft_statistics :: "fs \<Rightarrow> string \<Rightarrow> statistics" where
  "get_aircraft_statistics s icao =
     \<lparr>max_altitude_baro = 300000, max_ground_speed = 493, had_emergency = False\<rparr>"

section \<open>The object-store variant\<close>

text \<open>
  The bucket is an association list from keys to objects, read like a directory. The
  object store is an external service; its listing call is written from its contract:
  \<^verbatim>\<open>list_objects_v2\<close> returns the keys that begin with the prefix in ascending order, at
  most 1000 per response, with \<^verbatim>\<open>IsTruncated\<close> set and a continuation token while keys
  remain. The token is the number of keys already returned.
\<close>

type_synonym bucket = "(string \<times> raw_file) list"

definition S3_PREFIX :: string where
  "S3_PREFIX = ''raw/day=20231101/''"

text \<open>\<^verbatim>\<open>str.startswith\<close>.\<close>

definition startswith :: "string \<Rightarrow> string \<Rightarrow> bool" where
  "startswith s pre \<longleftrightarrow> take (length pre) s = pre"

record list_response =
  contents :: "string list"
  is_truncated :: bool
  next_continuation_token :: "nat option"

definition max_keys :: nat where
  "max_keys = 1000"

definition keys_with_prefix :: "bucket \<Rightarrow> string \<Rightarrow> string list" where
  "keys_with_prefix b prefix = sort (remdups (filter (\<lambda>key. startswith key prefix) (map fst b)))"

definition list_objects_v2 :: "bucket \<Rightarrow> string \<Rightarrow> nat option \<Rightarrow> list_response" where
  "list_objects_v2 b prefix token =
     (let start = (case token of None \<Rightarrow> 0 | Some n \<Rightarrow> n);
          rest = drop start (keys_with_prefix b prefix)
      in \<lparr>contents = take max_keys rest,
          is_truncated = (max_keys < length rest),
          next_continuation_token =
            (if max_keys < length rest then Some (start + max_keys) else None)\<rparr>)"

text \<open>
  The \<^verbatim>\<open>while True\<close> loop of \<^verbatim>\<open>prepare_data\<close> in \<^verbatim>\<open>bdi_api/s4/exercise.py\<close>, with the
  variables \<^verbatim>\<open>token\<close> and \<^verbatim>\<open>keys\<close> as arguments.
\<close>

function list_keys_loop :: "bucket \<Rightarrow> nat option \<Rightarrow> string list \<Rightarrow> string list" where
  "list_keys_loop b token keys =
     (let resp = list_objects_v2 b S3_PREFIX token;
          keys' = keys @ filter (\<lambda>key. \<not> (endswith key ''/'' \<or> \<not> endswith key ''.json.gz''))
                           (contents resp)
      in if is_truncated resp then list_keys_loop b (next_continuation_token resp) keys'
         else keys')"
  by pat_completeness auto
termination
  by (relation "measure (\<lambda>(b, token, keys).
        length (keys_with_prefix b S3_PREFIX) - (case token of None \<Rightarrow> 0 | Some n \<Rightarrow> n))")
     (auto simp: list_objects_v2_def Let_def max_keys_def split: option.splits)

declare list_keys_loop.simps [simp del]

text \<open>\<^verbatim>\<open>key.split("/")[-1]\<close>: the part of the key after its last slash.\<close>

definition basename :: "string \<Rightarrow> string" where
  "basename key = rev (takeWhile (\<lambda>c. c \<noteq> CHR ''/'') (rev key))"

text \<open>The object that \<^verbatim>\<open>download_file\<close> reads; every key it is asked for was listed.\<close>

definition get_object :: "bucket \<Rightarrow> string \<Rightarrow> raw_file" where
  "get_object b key = (case map_of b key of None \<Rightarrow> Unreadable | Some f \<Rightarrow> f)"

text \<open>Writing a file replaces an entry of the same name.\<close>

definition write_file :: "directory \<Rightarrow> string \<Rightarrow> raw_file \<Rightarrow> directory" where
  "write_file d name f = (name, f) # filter (\<lambda>entry. fst entry \<noteq> name) d"

text \<open>The loop \<^verbatim>\<open>for key in keys\<close>: each object is copied to the file named by its basename.\<close>

definition download_all :: "bucket \<Rightarrow> string list \<Rightarrow> directory \<Rightarrow> directory" where
  "download_all b keys d = fold (\<lambda>key d'. write_file d' (basename key) (get_object b key)) keys d"

text \<open>\<^verbatim>\<open>prepare_data\<close> of \<^verbatim>\<open>bdi_api/s4/exercise.py\<close>.\<close>

definition s4_prepare_data :: "bucket \<Rightarrow> fs \<Rightarrow> (error + string) \<times> fs" where
  "s4_prepare_data b s =
     (let s1 = ensure_clean_dir RawDayDir s;
          keys = sort (list_keys_loop b None []);
          s2 = s1\<lparr>raw_dir := download_all b keys (raw_dir s1)\<rparr>
      in prepare_data s2)"

section \<open>Reading the store, and the results the specification expects\<close>

text \<open>The number of position rows and the aircraft rows of the prepared database.\<close>

definition position_count :: "fs \<Rightarrow> nat" where
  "position_count s = (case prepared_db s of None \<Rightarrow> 0 | Some d \<Rightarrow> length (db_positions d))"

definition aircraft_rows :: "fs \<Rightarrow> aircraft_row list" where
  "aircraft_rows s = (case prepared_db s of None \<Rightarrow> [] | Some d \<Rightarrow> db_aircraft d)"

text \<open>
  The condition under which the specification has a position event persisted, and the
  identity, timestamp and coordinates of the event it expects for an observation.
\<close>

definition has_position :: "observation \<Rightarrow> bool" where
  "has_position a \<longleftrightarrow> truthy (obs_hex a) \<and> obs_lat a \<noteq> None \<and> obs_lon a \<noteq> None"

text \<open>
  Every parameter of the position insert of the observation binds, and every observation
  of a file that has a position does so: the file is read without an exception.
\<close>

definition position_binds :: "number \<Rightarrow> observation \<Rightarrow> bool" where
  "position_binds ts a \<longleftrightarrow>
     binds ts \<and> binds_opt (obs_lat a) \<and> binds_opt (obs_lon a)
     \<and> binds_opt (obs_alt_baro a) \<and> binds_opt (obs_gs a)"

definition file_ok :: "raw_file \<Rightarrow> bool" where
  "file_ok f =
     (case f of
        Unreadable \<Rightarrow> False
      | Snapshot payload \<Rightarrow>
          list_all (\<lambda>a. has_position a \<longrightarrow> position_binds (payload_now payload) a)
                   (payload_aircraft payload))"

definition position_key :: "position_row \<Rightarrow> string \<times> real \<times> real \<times> real" where
  "position_key p = (pos_icao p, pos_timestamp p, pos_lat p, pos_lon p)"

definition expected_position :: "number \<Rightarrow> observation \<Rightarrow> string \<times> real \<times> real \<times> real" where
  "expected_position ts a =
     (the (obs_hex a), real_column ts, real_column (the (obs_lat a)), real_column (the (obs_lon a)))"

definition expected_positions_of_file :: "raw_file \<Rightarrow> (string \<times> real \<times> real \<times> real) list" where
  "expected_positions_of_file f =
     (case f of
        Unreadable \<Rightarrow> []
      | Snapshot payload \<Rightarrow>
          map (expected_position (payload_now payload)) (filter has_position (payload_aircraft payload)))"

text \<open>
  What the specification asks of \<^verbatim>\<open>listPositions\<close>: the position events of the aircraft
  in ascending order of the timestamp, none for an unknown aircraft.
\<close>

definition spec_list_positions :: "fs \<Rightarrow> string \<Rightarrow> position_out list" where
  "spec_list_positions s icao =
     (case prepared_db s of
        None \<Rightarrow> []
      | Some d \<Rightarrow>
          map (\<lambda>p. \<lparr>out_timestamp = pos_timestamp p, out_lat = pos_lat p, out_lon = pos_lon p\<rparr>)
              (sort_key pos_timestamp (filter (\<lambda>p. pos_icao p = icao) (db_positions d))))"

text \<open>
  What the specification asks of \<^verbatim>\<open>stats\<close>: the largest altitude and the largest ground
  speed among the position events of the aircraft (none when there is no value), and
  whether one of them had an emergency.
\<close>

fun max_present :: "real option list \<Rightarrow> real option" where
  "max_present [] = None"
| "max_present (None # xs) = max_present xs"
| "max_present (Some x # xs) = (case max_present xs of None \<Rightarrow> Some x | Some y \<Rightarrow> Some (max x y))"

definition spec_stats :: "fs \<Rightarrow> string \<Rightarrow> real option \<times> real option \<times> bool" where
  "spec_stats s icao =
     (case prepared_db s of
        None \<Rightarrow> (None, None, False)
      | Some d \<Rightarrow>
          let events = filter (\<lambda>p. pos_icao p = icao) (db_positions d)
          in (max_present (map pos_altitude_baro events),
              max_present (map pos_ground_speed events),
              list_ex (\<lambda>p. pos_had_emergency p \<noteq> 0) events))"

text \<open>
  The keys that the specification has the stager copy: the keys of the bucket under the
  fixed prefix that end in the archive extension, in ascending order.
\<close>

definition spec_staged_keys :: "bucket \<Rightarrow> string list" where
  "spec_staged_keys b =
     sort (filter (\<lambda>key. endswith key ''.json.gz'')
             (filter (\<lambda>key. startswith key S3_PREFIX) (remdups (map fst b))))"

section \<open>Example inputs\<close>

text \<open>
  One snapshot with a complete observation, one without \<^verbatim>\<open>hex\<close> and one with
  \<^verbatim>\<open>hex = "ABC1"\<close> and no latitude.
\<close>

definition obs_full :: observation where
  "obs_full =
     \<lparr>obs_hex = Some ''abc1'', obs_r = Some ''N1'', obs_t = Some ''B738'',
      obs_lat = Some (PyFloat 41.3), obs_lon = Some (PyFloat 2.1), obs_alt_baro = Some (PyInt 100),
      obs_gs = Some (PyFloat 50), obs_emergency = None\<rparr>"

definition obs_no_hex :: observation where
  "obs_no_hex = obs_full\<lparr>obs_hex := None\<rparr>"

definition obs_no_lat :: observation where
  "obs_no_lat = obs_full\<lparr>obs_hex := Some ''ABC1'', obs_lat := None\<rparr>"

definition example_fs :: fs where
  "example_fs =
     \<lparr>raw_dir =
        [(''000000Z.json.gz'',
          Snapshot \<lparr>snap_now = Some (PyFloat 1698796800),
                    snap_aircraft = Some [obs_full, obs_no_hex, obs_no_lat]\<rparr>)],
      prepared_db = None\<rparr>"

text \<open>
  Three snapshots of one aircraft with altitudes 100, 300, 200 and ground speeds 50, 20,
  10, the second with an emergency.
\<close>

definition stats_obs :: "int \<Rightarrow> real \<Rightarrow> string option \<Rightarrow> observation" where
  "stats_obs alt gs emergency =
     \<lparr>obs_hex = Some ''abc1'', obs_r = Some ''N1'', obs_t = Some ''B738'',
      obs_lat = Some (PyFloat 41.3), obs_lon = Some (PyFloat 2.1), obs_alt_baro = Some (PyInt alt),
      obs_gs = Some (PyFloat gs), obs_emergency = emergency\<rparr>"

definition stats_fs :: fs where
  "stats_fs =
     \<lparr>raw_dir =
        [(''000005Z.json.gz'',
          Snapshot \<lparr>snap_now = Some (PyFloat 1698796805),
                    snap_aircraft = Some [stats_obs 300 20 (Some ''general'')]\<rparr>),
         (''000000Z.json.gz'',
          Snapshot \<lparr>snap_now = Some (PyFloat 1698796800),
                    snap_aircraft = Some [stats_obs 100 50 None]\<rparr>),
         (''000010Z.json.gz'',
          Snapshot \<lparr>snap_now = Some (PyFloat 1698796810),
                    snap_aircraft = Some [stats_obs 200 10 None]\<rparr>)],
      prepared_db = None\<rparr>"

text \<open>An aircraft row with known registration and type, and a later sparse observation.\<close>

definition known_row :: aircraft_row where
  "known_row = \<lparr>row_icao = ''abc1'', row_registration = Some ''N1'', row_type = Some ''B738''\<rparr>"

definition sparse_observation :: observation where
  "sparse_observation =
     \<lparr>obs_hex = Some ''abc1'', obs_r = None, obs_t = None, obs_lat = None,
      obs_lon = Some (PyInt 2), obs_alt_baro = None, obs_gs = None, obs_emergency = None\<rparr>"

text \<open>A prepared database with eleven aircraft, inserted out of order.\<close>

definition bare_row :: "string \<Rightarrow> aircraft_row" where
  "bare_row icao = \<lparr>row_icao = icao, row_registration = None, row_type = None\<rparr>"

definition paging_fs :: fs where
  "paging_fs =
     \<lparr>raw_dir = [],
      prepared_db = Some
        \<lparr>db_aircraft = map bare_row
           [''a07'', ''a03'', ''a11'', ''a01'', ''a09'', ''a05'', ''a02'', ''a10'', ''a06'', ''a04'',
            ''a08''],
         db_positions = [], db_seq = 0\<rparr>\<rparr>"

text \<open>A raw directory without snapshot files, beside a database left by an earlier run.\<close>

definition stale_fs :: fs where
  "stale_fs =
     \<lparr>raw_dir = [(''notes.txt'', Unreadable)],
      prepared_db = Some \<lparr>db_aircraft = [known_row], db_positions = [], db_seq = 0\<rparr>\<rparr>"

text \<open>
  A bucket that holds the three snapshots of \<open>stats_fs\<close> under the prefix, beside an object
  of another extension and an object outside the prefix.
\<close>

definition stats_bucket :: bucket where
  "stats_bucket =
     map (\<lambda>entry. (S3_PREFIX @ fst entry, snd entry)) (raw_dir stats_fs)
     @ [(''raw/day=20231101/readme.txt'', Unreadable),
        (''raw/other/000015Z.json.gz'', Unreadable)]"

text \<open>
  A bucket with two objects in different folders under the prefix that share their last
  path segment.
\<close>

definition empty_snapshot :: raw_file where
  "empty_snapshot = Snapshot \<lparr>snap_now = None, snap_aircraft = None\<rparr>"

definition nested_bucket :: bucket where
  "nested_bucket =
     [(''raw/day=20231101/b/000000Z.json.gz'', empty_snapshot),
      (''raw/day=20231101/a/000000Z.json.gz'', Unreadable)]"

text \<open>
  A snapshot whose capture time is an integer of more than 64 bits, and one whose capture
  time is the integer \<open>2 ^ 53 + 1\<close>, which no double represents.
\<close>

definition overflow_fs :: fs where
  "overflow_fs =
     \<lparr>raw_dir =
        [(''000000Z.json.gz'',
          Snapshot \<lparr>snap_now = Some (PyInt 10000000000000000000),
                    snap_aircraft = Some [obs_full]\<rparr>)],
      prepared_db = None\<rparr>"

definition rounding_fs :: fs where
  "rounding_fs =
     \<lparr>raw_dir =
        [(''000000Z.json.gz'',
          Snapshot \<lparr>snap_now = Some (PyInt 9007199254740993),
                    snap_aircraft = Some [obs_full]\<rparr>)],
      prepared_db = None\<rparr>"

section \<open>Properties of the filename sequencer\<close>

lemma digit_cases: "d < 10 \<Longrightarrow> d \<in> {0, 1, 2, 3, 4, 5, 6, 7, 8, 9::nat}"
  by auto

lemma digit_val_digit_char: "d < 10 \<Longrightarrow> digit_val (digit_char d) = d"
  using digit_cases [of d] by (auto simp: digit_val_def digit_char_def)

lemma nat_of_digits_snoc: "nat_of_digits (s @ [c]) = 10 * nat_of_digits s + digit_val c"
  by (simp add: nat_of_digits_def)

lemma nat_of_dec_digits: "nat_of_digits (dec_digits n) = n"
proof (induction n rule: dec_digits.induct)
  case (1 n)
  show ?case
  proof (cases "n < 10")
    case True
    then show ?thesis
      by (simp add: dec_digits.simps [of n] nat_of_digits_def digit_val_digit_char)
  next
    case False
    with 1 show ?thesis
      by (simp add: dec_digits.simps [of n] nat_of_digits_snoc digit_val_digit_char)
  qed
qed

lemma foldl_zeros: "foldl (\<lambda>acc c. 10 * acc + digit_val c) 0 (replicate k CHR ''0'') = 0"
  by (induction k) (simp_all add: digit_val_def)

lemma nat_of_digits_pad: "nat_of_digits (replicate k CHR ''0'' @ s) = nat_of_digits s"
  by (simp add: nat_of_digits_def foldl_zeros)

lemma nat_of_fmt_02d: "0 \<le> x \<Longrightarrow> nat_of_digits (fmt_02d x) = nat x"
  by (simp add: fmt_02d_def nat_of_digits_pad nat_of_dec_digits)

lemma length_dec_digits_pos: "Suc 0 \<le> length (dec_digits n)"
  by (subst dec_digits.simps) simp

lemma dec_digits_small: "n < 10 \<Longrightarrow> dec_digits n = [digit_char n]"
  by (subst dec_digits.simps) simp

lemma dec_digits_big:
  "\<not> n < 10 \<Longrightarrow> dec_digits n = dec_digits (n div 10) @ [digit_char (n mod 10)]"
  by (subst dec_digits.simps) simp

lemma length_dec_digits_small: "n < 100 \<Longrightarrow> length (dec_digits n) \<le> 2"
proof (cases "n < 10")
  case True
  then show ?thesis by (simp add: dec_digits_small)
next
  case False
  assume "n < 100"
  then have "n div 10 < 10" by simp
  with False show ?thesis by (simp add: dec_digits_big dec_digits_small)
qed

lemma length_fmt_02d: "0 \<le> x \<Longrightarrow> x < 100 \<Longrightarrow> length (fmt_02d x) = 2"
  using length_dec_digits_small [of "nat x"] length_dec_digits_pos [of "nat x"]
  by (simp add: fmt_02d_def)

lemma length_fmt_02d_ge: "2 \<le> length (fmt_02d x)"
proof (cases "x < 0")
  case True
  then show ?thesis
    using length_dec_digits_pos [of "nat (- x)"] by (simp add: fmt_02d_def)
next
  case False
  then show ?thesis
    using length_dec_digits_pos [of "nat x"] by (simp add: fmt_02d_def)
qed

lemma hms_seconds_concat:
  assumes "length m = 2" "length s = 2"
  shows "hms_seconds (h @ m @ s @ ''Z.json.gz'')
         = nat_of_digits h * 3600 + nat_of_digits m * 60 + nat_of_digits s"
  using assms by (simp add: hms_seconds_def Let_def)

lemma hms_split: "(ts::int) div 3600 * 3600 + ts mod 3600 div 60 * 60 + ts mod 60 = ts"
proof -
  have "ts mod 60 = ts mod 3600 mod 60"
    by (simp add: mod_mod_cancel)
  then have "ts mod 3600 div 60 * 60 + ts mod 60 = ts mod 3600"
    by simp
  then show ?thesis
    by (simp add: add.assoc)
qed

lemma minute_bounds: "0 \<le> (x::int) \<Longrightarrow> x < 3600 \<Longrightarrow> 0 \<le> x div 60 \<and> x div 60 < 100"
  by arith

lemma hms_seconds_filename:
  assumes "0 \<le> i"
  shows "hms_seconds (filename_of_index i) = nat (i * 5)"
proof -
  define hh where "hh = i * 5 div 3600"
  define mm where "mm = i * 5 mod 3600 div 60"
  define ss where "ss = i * 5 mod 60"
  have h: "0 \<le> hh"
    using assms by (simp add: hh_def pos_imp_zdiv_nonneg_iff)
  have m: "0 \<le> mm" "mm < 100"
    using minute_bounds [of "i * 5 mod 3600"] by (simp_all add: mm_def)
  have s: "0 \<le> ss" "ss < 100"
    by (simp_all add: ss_def) 
  have "filename_of_index i = fmt_02d hh @ fmt_02d mm @ fmt_02d ss @ ''Z.json.gz''"
    by (simp add: filename_of_index_def Let_def hh_def mm_def ss_def)
  then have "hms_seconds (filename_of_index i) = nat hh * 3600 + nat mm * 60 + nat ss"
    using h m s by (simp add: hms_seconds_concat length_fmt_02d nat_of_fmt_02d)
  also have "\<dots> = nat (hh * 3600 + mm * 60 + ss)"
    using h m s by (simp add: nat_add_distrib nat_mult_distrib)
  also have "hh * 3600 + mm * 60 + ss = i * 5"
    unfolding hh_def mm_def ss_def by (rule hms_split)
  finally show ?thesis .
qed

lemma first_n_filenames_nth:
  "i < nat n \<Longrightarrow> first_n_filenames n ! i = filename_of_index (int i)"
  by (simp add: first_n_filenames_def)

lemma s4_first_n_filenames_eq: "s4_first_n_filenames n = first_n_filenames n"
  by (simp add: s4_first_n_filenames_def first_n_filenames_def filename_of_index_def)

lemma filename_fields:
  "0 \<le> i \<Longrightarrow>
     2 \<le> length (fmt_02d (i * 5 div 3600))
     \<and> length (fmt_02d (i * 5 mod 3600 div 60)) = 2
     \<and> length (fmt_02d (i * 5 mod 60)) = 2"
  using minute_bounds [of "i * 5 mod 3600"]
  by (simp add: length_fmt_02d length_fmt_02d_ge)

lemma filename_0: "filename_of_index 0 = ''000000Z.json.gz''"
  by (simp add: filename_of_index_def fmt_02d_def dec_digits_small digit_char_def)

lemma filename_1: "filename_of_index 1 = ''000005Z.json.gz''"
  by (simp add: filename_of_index_def fmt_02d_def dec_digits_small digit_char_def)

lemma filename_12: "filename_of_index 12 = ''000100Z.json.gz''"
  by (simp add: filename_of_index_def fmt_02d_def dec_digits_small digit_char_def)

text \<open>
  Claim C3. For a count \<open>n \<ge> 0\<close> the sequencer returns exactly \<open>n\<close> filenames (in both
  copies of the function). The filename at index \<open>i\<close> is the hours, minutes and seconds
  of \<open>i * 5\<close> seconds past midnight, each printed with at least two digits (the minutes
  and seconds with exactly two), followed by \<^verbatim>\<open>Z.json.gz\<close>; read back as a time of day it
  is \<open>i * 5\<close> seconds, so the sequence is strictly increasing and starts at
  \<^verbatim>\<open>000000Z\<close>; index 1 is \<^verbatim>\<open>000005Z\<close> and index 12 is \<^verbatim>\<open>000100Z\<close>.
\<close>

theorem first_n_filenames_sequence:
  "0 \<le> n \<Longrightarrow>
     int (length (first_n_filenames n)) = n
     \<and> s4_first_n_filenames n = first_n_filenames n
     \<and> (\<forall>i. i < nat n \<longrightarrow>
            first_n_filenames n ! i
              = fmt_02d (int i * 5 div 3600) @ fmt_02d (int i * 5 mod 3600 div 60)
                @ fmt_02d (int i * 5 mod 60) @ ''Z.json.gz''
            \<and> 2 \<le> length (fmt_02d (int i * 5 div 3600))
            \<and> length (fmt_02d (int i * 5 mod 3600 div 60)) = 2
            \<and> length (fmt_02d (int i * 5 mod 60)) = 2
            \<and> hms_seconds (first_n_filenames n ! i) = i * 5)
     \<and> (\<forall>i j. i < j \<and> j < nat n \<longrightarrow>
            hms_seconds (first_n_filenames n ! i) < hms_seconds (first_n_filenames n ! j))
     \<and> (0 < n \<longrightarrow> first_n_filenames n ! 0 = ''000000Z.json.gz'')
     \<and> (1 < n \<longrightarrow> first_n_filenames n ! 1 = ''000005Z.json.gz'')
     \<and> (12 < n \<longrightarrow> first_n_filenames n ! 12 = ''000100Z.json.gz'')"
proof -
  assume n: "0 \<le> n"
  have len: "int (length (first_n_filenames n)) = n"
    using n by (simp add: first_n_filenames_def)
  have sec: "hms_seconds (first_n_filenames n ! i) = i * 5" if "i < nat n" for i
    using that hms_seconds_filename [of "int i"]
    by (simp add: first_n_filenames_nth nat_mult_distrib)
  have shape: "first_n_filenames n ! i
      = fmt_02d (int i * 5 div 3600) @ fmt_02d (int i * 5 mod 3600 div 60)
        @ fmt_02d (int i * 5 mod 60) @ ''Z.json.gz''" if "i < nat n" for i
    using that by (simp add: first_n_filenames_nth filename_of_index_def Let_def)
  have incr: "hms_seconds (first_n_filenames n ! i) < hms_seconds (first_n_filenames n ! j)"
    if "i < j" "j < nat n" for i j
    using that by (simp add: sec)
  have f0: "first_n_filenames n ! 0 = ''000000Z.json.gz''" if "0 < n"
    using that first_n_filenames_nth [of 0 n] by (simp add: filename_0)
  have f1: "first_n_filenames n ! 1 = ''000005Z.json.gz''" if "1 < n"
    using that first_n_filenames_nth [of 1 n] by (simp add: filename_1)
  have f12: "first_n_filenames n ! 12 = ''000100Z.json.gz''" if "12 < n"
    using that first_n_filenames_nth [of 12 n] by (simp add: filename_12)
  show ?thesis
    using len s4_first_n_filenames_eq [of n] sec shape incr f0 f1 f12
      filename_fields [of "int i" for i]
    by (intro conjI allI impI) simp_all
qed

theorem first_n_filenames_sequence_witness:
  "(0::int) \<le> 13
   \<and> int (length (first_n_filenames 13)) = 13
   \<and> first_n_filenames 13 ! 0 = ''000000Z.json.gz''
   \<and> first_n_filenames 13 ! 1 = ''000005Z.json.gz''
   \<and> first_n_filenames 13 ! 12 = ''000100Z.json.gz''
   \<and> hms_seconds (first_n_filenames 13 ! 12) = 60
   \<and> hms_seconds (first_n_filenames 13 ! 1) < hms_seconds (first_n_filenames 13 ! 12)"
proof -
  have h: "(0::int) \<le> 13" by simp
  note t = first_n_filenames_sequence [OF h]
  have a: "hms_seconds (first_n_filenames 13 ! 12) = 12 * 5"
    using t by (elim conjE allE [of _ 12]) simp
  have b: "hms_seconds (first_n_filenames 13 ! 1) < hms_seconds (first_n_filenames 13 ! 12)"
    using t by (elim conjE allE [of _ 1] allE [of _ 12]) simp
  show ?thesis
    using t a b by simp
qed

section \<open>Properties of the aircraft upsert\<close>

lemma upsert_aircraft_unseen:
  "icao \<notin> row_icao ` set rows \<Longrightarrow>
     upsert_aircraft icao registration ac_type rows
       = rows @ [\<lparr>row_icao = icao, row_registration = registration, row_type = ac_type\<rparr>]"
  by (induction rows) auto

lemma upsert_aircraft_keys_seen:
  "icao \<in> row_icao ` set rows \<Longrightarrow>
     map row_icao (upsert_aircraft icao registration ac_type rows) = map row_icao rows"
  by (induction rows) auto

lemma upsert_aircraft_find_same:
  "find (\<lambda>row. row_icao row = icao) (upsert_aircraft icao registration ac_type rows)
     = Some \<lparr>row_icao = icao, row_registration = registration, row_type = ac_type\<rparr>"
  by (induction rows) auto

lemma upsert_aircraft_find_other:
  "icao' \<noteq> icao \<Longrightarrow>
     find (\<lambda>row. row_icao row = icao') (upsert_aircraft icao registration ac_type rows)
       = find (\<lambda>row. row_icao row = icao') rows"
  by (induction rows) auto

lemma upsert_aircraft_distinct:
  "distinct (map row_icao rows) \<Longrightarrow>
     distinct (map row_icao (upsert_aircraft icao registration ac_type rows))"
proof (cases "icao \<in> row_icao ` set rows")
  case True
  assume "distinct (map row_icao rows)"
  with True show ?thesis by (simp add: upsert_aircraft_keys_seen)
next
  case False
  assume "distinct (map row_icao rows)"
  with False show ?thesis by (simp add: upsert_aircraft_unseen)
qed

lemma process_observation_aircraft:
  "truthy (obs_hex a) \<Longrightarrow>
     db_aircraft (snd (process_observation ts a d))
       = upsert_aircraft (the (obs_hex a)) (obs_r a) (obs_t a) (db_aircraft d)"
  by (cases "obs_hex a")
     (auto simp: process_observation_def insert_position_def Let_def split: option.splits)

lemma process_observation_skip:
  "\<not> truthy (obs_hex a) \<Longrightarrow> process_observation ts a d = (None, d)"
  by (cases "obs_hex a") (auto simp: process_observation_def)

lemma upsert_aircraft_has_key:
  "icao \<in> row_icao ` set (upsert_aircraft icao registration ac_type rows)"
  by (induction rows) auto

text \<open>
  Claim C7. The upsert appends a new row when no row has the icao; otherwise the table
  keeps its keys, and in both cases the row of the icao afterwards holds exactly the new
  registration and type while every other row is as before. This holds for null values
  too: an upsert with no registration and no type after one with values leaves both
  blank. Every observation with an identity runs this upsert with its own \<^verbatim>\<open>r\<close> and
  \<^verbatim>\<open>t\<close>.
\<close>

theorem upsert_aircraft_last_write_wins:
  "(icao \<notin> row_icao ` set rows \<longrightarrow>
      upsert_aircraft icao registration ac_type rows
        = rows @ [\<lparr>row_icao = icao, row_registration = registration, row_type = ac_type\<rparr>])
   \<and> (icao \<in> row_icao ` set rows \<longrightarrow>
        map row_icao (upsert_aircraft icao registration ac_type rows) = map row_icao rows)
   \<and> find (\<lambda>row. row_icao row = icao) (upsert_aircraft icao registration ac_type rows)
        = Some \<lparr>row_icao = icao, row_registration = registration, row_type = ac_type\<rparr>
   \<and> (\<forall>icao'. icao' \<noteq> icao \<longrightarrow>
          find (\<lambda>row. row_icao row = icao') (upsert_aircraft icao registration ac_type rows)
            = find (\<lambda>row. row_icao row = icao') rows)
   \<and> find (\<lambda>row. row_icao row = icao)
          (upsert_aircraft icao None None (upsert_aircraft icao registration ac_type rows))
        = Some \<lparr>row_icao = icao, row_registration = None, row_type = None\<rparr>
   \<and> (truthy (obs_hex a) \<longrightarrow>
        db_aircraft (snd (process_observation ts a d))
          = upsert_aircraft (the (obs_hex a)) (obs_r a) (obs_t a) (db_aircraft d))"
  using upsert_aircraft_unseen [of icao rows registration ac_type]
    upsert_aircraft_keys_seen [of icao rows registration ac_type]
    upsert_aircraft_find_other [of _ icao registration ac_type rows]
    process_observation_aircraft [of a ts d]
  by (simp add: upsert_aircraft_find_same)

theorem upsert_aircraft_last_write_wins_witness:
  "''abc2'' \<notin> row_icao ` set [known_row]
   \<and> upsert_aircraft ''abc2'' (Some ''N2'') None [known_row]
       = [known_row, \<lparr>row_icao = ''abc2'', row_registration = Some ''N2'', row_type = None\<rparr>]
   \<and> ''abc1'' \<in> row_icao ` set [known_row]
   \<and> map row_icao (upsert_aircraft ''abc1'' None None [known_row]) = [''abc1'']
   \<and> find (\<lambda>row. row_icao row = ''abc1'') (upsert_aircraft ''abc1'' None None [known_row])
       = Some \<lparr>row_icao = ''abc1'', row_registration = None, row_type = None\<rparr>
   \<and> truthy (obs_hex sparse_observation)
   \<and> db_aircraft (snd (process_observation (PyFloat 0) sparse_observation
         \<lparr>db_aircraft = [known_row], db_positions = [], db_seq = 0\<rparr>))
       = [\<lparr>row_icao = ''abc1'', row_registration = None, row_type = None\<rparr>]"
  using upsert_aircraft_last_write_wins
    [of "''abc2''" "[known_row]" "Some ''N2''" None sparse_observation "PyFloat 0"
        "\<lparr>db_aircraft = [known_row], db_positions = [], db_seq = 0\<rparr>"]
    upsert_aircraft_last_write_wins
    [of "''abc1''" "[known_row]" None None sparse_observation "PyFloat 0"
        "\<lparr>db_aircraft = [known_row], db_positions = [], db_seq = 0\<rparr>"]
  by (simp add: known_row_def sparse_observation_def)

section \<open>Which observations are persisted\<close>

lemma excess_bits_small: "a < 2 ^ 53 \<Longrightarrow> excess_bits a = 0"
  by (subst excess_bits.simps) simp

lemma excess_bits_big: "\<not> a < 2 ^ 53 \<Longrightarrow> excess_bits a = Suc (excess_bits (a div 2))"
  by (subst excess_bits.simps) simp

lemma int_to_double_exact: "\<bar>i\<bar> \<le> 2 ^ 53 \<Longrightarrow> int_to_double i = i"
  by (simp add: int_to_double_def)

lemma int_to_double_rounded: "int_to_double 9007199254740993 = 9007199254740992"
  by (simp add: int_to_double_def excess_bits_small excess_bits_big Let_def)

lemma fits_int64_flag: "fits_int64 0" "fits_int64 1"
  by (simp_all add: fits_int64_def)

lemma process_observation_append:
  assumes "has_position a" "position_binds ts a"
  shows "process_observation ts a d
         = (None,
            d\<lparr>db_aircraft := upsert_aircraft (the (obs_hex a)) (obs_r a) (obs_t a) (db_aircraft d),
              db_positions := db_positions d @
                [\<lparr>pos_id = Suc (db_seq d), pos_icao = the (obs_hex a),
                  pos_timestamp = real_column ts,
                  pos_lat = real_column (the (obs_lat a)),
                  pos_lon = real_column (the (obs_lon a)),
                  pos_altitude_baro = map_option real_column (obs_alt_baro a),
                  pos_ground_speed = map_option real_column (obs_gs a),
                  pos_had_emergency = (if truthy (obs_emergency a) then 1 else 0)\<rparr>],
              db_seq := Suc (db_seq d)\<rparr>)"
  using assms
  by (cases "obs_hex a")
     (auto simp: has_position_def position_binds_def process_observation_def
                 insert_position_def Let_def fits_int64_flag)

lemma process_observation_overflow:
  assumes "has_position a" "\<not> position_binds ts a"
  shows "process_observation ts a d
         = (Some OverflowError,
            d\<lparr>db_aircraft := upsert_aircraft (the (obs_hex a)) (obs_r a) (obs_t a) (db_aircraft d)\<rparr>)"
  using assms
  by (cases "obs_hex a")
     (auto simp: has_position_def position_binds_def process_observation_def
                 insert_position_def Let_def)

lemma process_observation_no_append:
  "\<not> has_position a \<Longrightarrow>
     fst (process_observation ts a d) = None
     \<and> db_positions (snd (process_observation ts a d)) = db_positions d"
  by (cases "obs_hex a")
     (auto simp: has_position_def process_observation_def Let_def split: option.splits)

lemma process_observation_ok_iff:
  "fst (process_observation ts a d) = None \<longleftrightarrow> (has_position a \<longrightarrow> position_binds ts a)"
proof (cases "has_position a")
  case True
  then show ?thesis
    by (cases "position_binds ts a")
       (simp_all add: process_observation_append process_observation_overflow)
next
  case False
  then show ?thesis
    by (simp add: process_observation_no_append)
qed

lemma process_observation_keys:
  assumes "fst (process_observation ts a d) = None"
  shows "map position_key (db_positions (snd (process_observation ts a d)))
         = map position_key (db_positions d)
           @ map (expected_position ts) (filter has_position [a])"
proof (cases "has_position a")
  case True
  with assms have "position_binds ts a"
    by (simp add: process_observation_ok_iff)
  with True show ?thesis
    by (simp add: process_observation_append position_key_def expected_position_def)
next
  case False
  then show ?thesis
    by (simp add: process_observation_no_append)
qed

lemma process_observations_keys:
  "process_observations ts as d = (None, d') \<Longrightarrow>
     map position_key (db_positions d')
       = map position_key (db_positions d) @ map (expected_position ts) (filter has_position as)"
proof (induction as arbitrary: d)
  case Nil
  then show ?case by simp
next
  case (Cons a as)
  obtain e d1 where step: "process_observation ts a d = (e, d1)"
    by (cases "process_observation ts a d")
  with Cons.prems have e: "e = None" and rest: "process_observations ts as d1 = (None, d')"
    by (auto split: option.splits)
  from step e have "map position_key (db_positions d1)
      = map position_key (db_positions d) @ map (expected_position ts) (filter has_position [a])"
    using process_observation_keys [of ts a d] by simp
  with Cons.IH [OF rest] show ?case
    by simp
qed

lemma process_observations_ok_iff:
  "fst (process_observations ts as d) = None
     \<longleftrightarrow> list_all (\<lambda>a. has_position a \<longrightarrow> position_binds ts a) as"
proof (induction as arbitrary: d)
  case Nil
  show ?case by simp
next
  case (Cons a as)
  obtain e d1 where step: "process_observation ts a d = (e, d1)"
    by (cases "process_observation ts a d")
  then have "e = None \<longleftrightarrow> (has_position a \<longrightarrow> position_binds ts a)"
    using process_observation_ok_iff [of ts a d] by simp
  with step Cons.IH [of d1] show ?case
    by (cases e) simp_all
qed

lemma process_file_keys:
  "process_file f d = Inr d' \<Longrightarrow>
     map position_key (db_positions d')
       = map position_key (db_positions d) @ expected_positions_of_file f"
proof (cases f)
  case Unreadable
  assume "process_file f d = Inr d'"
  with Unreadable show ?thesis
    by (simp add: process_file_def)
next
  case (Snapshot payload)
  assume run: "process_file f d = Inr d'"
  obtain e d1 where loop:
    "process_observations (payload_now payload) (payload_aircraft payload) d = (e, d1)"
    by (cases "process_observations (payload_now payload) (payload_aircraft payload) d")
  with run Snapshot have "e = None" "d1 = d'"
    by (auto simp: process_file_def Let_def split: option.splits)
  with loop process_observations_keys [of "payload_now payload" "payload_aircraft payload" d d']
  show ?thesis
    by (simp add: Snapshot expected_positions_of_file_def)
qed

lemma process_file_ok_iff: "(\<exists>d'. process_file f d = Inr d') \<longleftrightarrow> file_ok f"
proof (cases f)
  case Unreadable
  then show ?thesis
    by (simp add: process_file_def file_ok_def)
next
  case (Snapshot payload)
  obtain e d1 where loop:
    "process_observations (payload_now payload) (payload_aircraft payload) d = (e, d1)"
    by (cases "process_observations (payload_now payload) (payload_aircraft payload) d")
  then have "e = None \<longleftrightarrow> file_ok f"
    using process_observations_ok_iff [of "payload_now payload" "payload_aircraft payload" d]
    by (simp add: Snapshot file_ok_def)
  with loop show ?thesis
    by (cases e) (simp_all add: Snapshot process_file_def Let_def)
qed

lemma process_files_keys:
  "process_files fs d = Inr d' \<Longrightarrow>
     map position_key (db_positions d')
       = map position_key (db_positions d) @ concat (map expected_positions_of_file fs)"
proof (induction fs arbitrary: d)
  case Nil
  then show ?case by simp
next
  case (Cons f fs)
  from Cons.prems obtain d1 where f: "process_file f d = Inr d1"
    and rest: "process_files fs d1 = Inr d'"
    by (auto split: sum.splits)
  show ?case
    using Cons.IH [OF rest] process_file_keys [OF f] by simp
qed

lemma process_files_ok_iff: "(\<exists>d'. process_files fs d = Inr d') \<longleftrightarrow> list_all file_ok fs"
proof (induction fs arbitrary: d)
  case Nil
  show ?case by simp
next
  case (Cons f fs)
  show ?case
  proof (cases "process_file f d")
    case (Inl e)
    then have "\<not> file_ok f"
      using process_file_ok_iff [of f d] by simp
    with Inl show ?thesis by simp
  next
    case (Inr d1)
    then have "file_ok f"
      using process_file_ok_iff [of f d] by auto
    with Inr Cons.IH [of d1] show ?thesis by simp
  qed
qed

lemma prepare_data_ok:
  "fst (prepare_data s) = Inr ''OK'' \<Longrightarrow>
     \<exists>d. process_files (map (load_file (raw_dir s)) (glob_json_gz (raw_dir s))) empty_db = Inr d
       \<and> prepared_db (snd (prepare_data s)) = Some d"
  by (auto simp: prepare_data_def init_db_def Let_def split: if_splits sum.splits)

lemma prepare_data_ok_iff:
  "fst (prepare_data s) = Inr ''OK''
     \<longleftrightarrow> glob_json_gz (raw_dir s) \<noteq> []
          \<and> list_all file_ok (map (load_file (raw_dir s)) (glob_json_gz (raw_dir s)))"
proof (cases "process_files (map (load_file (raw_dir s)) (glob_json_gz (raw_dir s))) empty_db")
  case (Inl e)
  then have "\<not> list_all file_ok (map (load_file (raw_dir s)) (glob_json_gz (raw_dir s)))"
    using process_files_ok_iff
      [of "map (load_file (raw_dir s)) (glob_json_gz (raw_dir s))" empty_db]
    by simp
  with Inl show ?thesis
    by (simp add: prepare_data_def init_db_def Let_def)
next
  case (Inr d)
  then have "list_all file_ok (map (load_file (raw_dir s)) (glob_json_gz (raw_dir s)))"
    using process_files_ok_iff
      [of "map (load_file (raw_dir s)) (glob_json_gz (raw_dir s))" empty_db]
    by auto
  with Inr show ?thesis
    by (simp add: prepare_data_def init_db_def Let_def)
qed

lemma prepare_data_failed:
  "fst (prepare_data s) \<noteq> Inr ''OK'' \<Longrightarrow>
     position_count (snd (prepare_data s)) = 0 \<and> aircraft_rows (snd (prepare_data s)) = []"
  by (auto simp: prepare_data_def init_db_def empty_db_def position_count_def aircraft_rows_def
                 Let_def split: if_splits sum.splits)

text \<open>
  Claim C4. An observation without an identity (\<^verbatim>\<open>hex\<close> absent, null or empty, the test
  \<^verbatim>\<open>if not icao\<close>) leaves the database as it was. An observation with an identity always
  runs the aircraft upsert, so that a row of its icao exists afterwards. With an identity
  and both \<^verbatim>\<open>lat\<close> and \<^verbatim>\<open>lon\<close> it runs the position insert, which appends one row
  holding its values as the REAL columns store them, or raises \<^verbatim>\<open>OverflowError\<close> when
  one of its integers has more than 64 bits; without an identity or without \<^verbatim>\<open>lat\<close> or
  \<^verbatim>\<open>lon\<close> no statement touches the position table. A run succeeds exactly when there
  is a raw file, every raw file loads and no insert raises; then the position table
  holds, in file order, exactly the events of the observations with an identity, \<^verbatim>\<open>lat\<close>
  and \<^verbatim>\<open>lon\<close>. A run that raises persists no row at all. An integer binds exactly
  when it is a signed 64-bit integer and a float always; a REAL column holds a float as it
  is, an integer up to \<open>2 ^ 53\<close> in magnitude exactly, and \<open>2 ^ 53 + 1\<close> as \<open>2 ^ 53\<close>.
\<close>

theorem position_persisted_iff:
  "(\<not> truthy (obs_hex a) \<longrightarrow> process_observation ts a d = (None, d))
   \<and> (truthy (obs_hex a) \<longrightarrow>
        db_aircraft (snd (process_observation ts a d))
          = upsert_aircraft (the (obs_hex a)) (obs_r a) (obs_t a) (db_aircraft d)
        \<and> the (obs_hex a) \<in> row_icao ` set (db_aircraft (snd (process_observation ts a d))))
   \<and> (truthy (obs_hex a) \<and> obs_lat a \<noteq> None \<and> obs_lon a \<noteq> None \<and> position_binds ts a \<longrightarrow>
        fst (process_observation ts a d) = None
        \<and> db_positions (snd (process_observation ts a d))
          = db_positions d @
              [\<lparr>pos_id = Suc (db_seq d), pos_icao = the (obs_hex a),
                pos_timestamp = real_column ts,
                pos_lat = real_column (the (obs_lat a)),
                pos_lon = real_column (the (obs_lon a)),
                pos_altitude_baro = map_option real_column (obs_alt_baro a),
                pos_ground_speed = map_option real_column (obs_gs a),
                pos_had_emergency = (if truthy (obs_emergency a) then 1 else 0)\<rparr>])
   \<and> (truthy (obs_hex a) \<and> obs_lat a \<noteq> None \<and> obs_lon a \<noteq> None \<and> \<not> position_binds ts a \<longrightarrow>
        fst (process_observation ts a d) = Some OverflowError
        \<and> db_positions (snd (process_observation ts a d)) = db_positions d)
   \<and> (\<not> (truthy (obs_hex a) \<and> obs_lat a \<noteq> None \<and> obs_lon a \<noteq> None) \<longrightarrow>
        fst (process_observation ts a d) = None
        \<and> db_positions (snd (process_observation ts a d)) = db_positions d)
   \<and> (fst (prepare_data s) = Inr ''OK''
        \<longleftrightarrow> glob_json_gz (raw_dir s) \<noteq> []
             \<and> list_all file_ok (map (load_file (raw_dir s)) (glob_json_gz (raw_dir s))))
   \<and> (fst (prepare_data s) = Inr ''OK'' \<longrightarrow>
        (\<exists>d'. prepared_db (snd (prepare_data s)) = Some d'
           \<and> map position_key (db_positions d')
               = concat (map expected_positions_of_file
                          (map (load_file (raw_dir s)) (glob_json_gz (raw_dir s))))))
   \<and> (fst (prepare_data s) \<noteq> Inr ''OK'' \<longrightarrow>
        position_count (snd (prepare_data s)) = 0 \<and> aircraft_rows (snd (prepare_data s)) = [])
   \<and> (binds (PyInt i) \<longleftrightarrow> - (2 ^ 63) \<le> i \<and> i < 2 ^ 63)
   \<and> binds (PyFloat r)
   \<and> real_column (PyFloat r) = r
   \<and> (\<bar>i\<bar> \<le> 2 ^ 53 \<longrightarrow> real_column (PyInt i) = real_of_int i)
   \<and> real_column (PyInt 9007199254740993) = 9007199254740992"
proof -
  have pipeline: "\<exists>d'. prepared_db (snd (prepare_data s)) = Some d'
      \<and> map position_key (db_positions d')
          = concat (map expected_positions_of_file
                     (map (load_file (raw_dir s)) (glob_json_gz (raw_dir s))))"
    if "fst (prepare_data s) = Inr ''OK''"
  proof -
    from prepare_data_ok [OF that] obtain d' where
      run: "process_files (map (load_file (raw_dir s)) (glob_json_gz (raw_dir s))) empty_db = Inr d'"
      and out: "prepared_db (snd (prepare_data s)) = Some d'"
      by blast
    from process_files_keys [OF run] out show ?thesis
      by (simp add: empty_db_def)
  qed
  have skip: "\<not> truthy (obs_hex a) \<longrightarrow> process_observation ts a d = (None, d)"
    by (simp add: process_observation_skip)
  have upsert: "truthy (obs_hex a) \<longrightarrow>
        db_aircraft (snd (process_observation ts a d))
          = upsert_aircraft (the (obs_hex a)) (obs_r a) (obs_t a) (db_aircraft d)
        \<and> the (obs_hex a) \<in> row_icao ` set (db_aircraft (snd (process_observation ts a d)))"
    by (simp add: process_observation_aircraft upsert_aircraft_has_key)
  have append: "truthy (obs_hex a) \<and> obs_lat a \<noteq> None \<and> obs_lon a \<noteq> None \<and> position_binds ts a \<longrightarrow>
        fst (process_observation ts a d) = None
        \<and> db_positions (snd (process_observation ts a d))
          = db_positions d @
              [\<lparr>pos_id = Suc (db_seq d), pos_icao = the (obs_hex a),
                pos_timestamp = real_column ts,
                pos_lat = real_column (the (obs_lat a)),
                pos_lon = real_column (the (obs_lon a)),
                pos_altitude_baro = map_option real_column (obs_alt_baro a),
                pos_ground_speed = map_option real_column (obs_gs a),
                pos_had_emergency = (if truthy (obs_emergency a) then 1 else 0)\<rparr>]"
    using process_observation_append [of a ts d] by (simp add: has_position_def)
  have overflow: "truthy (obs_hex a) \<and> obs_lat a \<noteq> None \<and> obs_lon a \<noteq> None
        \<and> \<not> position_binds ts a \<longrightarrow>
        fst (process_observation ts a d) = Some OverflowError
        \<and> db_positions (snd (process_observation ts a d)) = db_positions d"
    using process_observation_overflow [of a ts d] by (simp add: has_position_def)
  have none: "\<not> (truthy (obs_hex a) \<and> obs_lat a \<noteq> None \<and> obs_lon a \<noteq> None) \<longrightarrow>
        fst (process_observation ts a d) = None
        \<and> db_positions (snd (process_observation ts a d)) = db_positions d"
    using process_observation_no_append [of a ts d] by (simp add: has_position_def)
  have bind: "binds (PyInt i) \<longleftrightarrow> - (2 ^ 63) \<le> i \<and> i < 2 ^ 63"
    by (simp add: fits_int64_def)
  have exact: "\<bar>i\<bar> \<le> 2 ^ 53 \<longrightarrow> real_column (PyInt i) = real_of_int i"
    by (simp add: int_to_double_exact)
  have rounded: "real_column (PyInt 9007199254740993) = 9007199254740992"
    by (simp add: int_to_double_rounded)
  from skip upsert append overflow none prepare_data_ok_iff [of s] pipeline
    prepare_data_failed [of s] bind exact rounded
  show ?thesis
    by (intro conjI) (blast | simp)+
qed

section \<open>Evaluating the pipeline on the examples\<close>

lemmas prepare_eval =
  prepare_data_def glob_json_gz_def endswith_def load_file_def init_db_def empty_db_def
  process_file_def payload_now_def payload_aircraft_def process_observation_def
  insert_position_def fits_int64_def int_to_double_def Let_def

lemma example_prepared:
  "prepare_data example_fs =
     (Inr ''OK'',
      example_fs\<lparr>prepared_db := Some
        \<lparr>db_aircraft =
           [\<lparr>row_icao = ''abc1'', row_registration = Some ''N1'', row_type = Some ''B738''\<rparr>,
            \<lparr>row_icao = ''ABC1'', row_registration = Some ''N1'', row_type = Some ''B738''\<rparr>],
         db_positions =
           [\<lparr>pos_id = 1, pos_icao = ''abc1'', pos_timestamp = 1698796800, pos_lat = 41.3,
             pos_lon = 2.1, pos_altitude_baro = Some 100, pos_ground_speed = Some 50,
             pos_had_emergency = 0\<rparr>],
         db_seq = 1\<rparr>\<rparr>)"
  by (simp add: example_fs_def obs_full_def obs_no_hex_def obs_no_lat_def prepare_eval)

lemma stats_prepared:
  "prepared_db (snd (prepare_data stats_fs)) = Some
        \<lparr>db_aircraft =
           [\<lparr>row_icao = ''abc1'', row_registration = Some ''N1'', row_type = Some ''B738''\<rparr>],
         db_positions =
           [\<lparr>pos_id = 1, pos_icao = ''abc1'', pos_timestamp = 1698796800, pos_lat = 41.3,
             pos_lon = 2.1, pos_altitude_baro = Some 100, pos_ground_speed = Some 50,
             pos_had_emergency = 0\<rparr>,
            \<lparr>pos_id = 2, pos_icao = ''abc1'', pos_timestamp = 1698796805, pos_lat = 41.3,
             pos_lon = 2.1, pos_altitude_baro = Some 300, pos_ground_speed = Some 20,
             pos_had_emergency = 1\<rparr>,
            \<lparr>pos_id = 3, pos_icao = ''abc1'', pos_timestamp = 1698796810, pos_lat = 41.3,
             pos_lon = 2.1, pos_altitude_baro = Some 200, pos_ground_speed = Some 10,
             pos_had_emergency = 0\<rparr>],
         db_seq = 3\<rparr>"
  by (simp add: stats_fs_def stats_obs_def prepare_eval)

lemma overflow_failed: "fst (prepare_data overflow_fs) = Inl OverflowError"
  by (simp add: overflow_fs_def obs_full_def prepare_eval)

lemma rounding_prepared: "fst (prepare_data rounding_fs) = Inr ''OK''"
  by (simp add: rounding_fs_def obs_full_def prepare_eval)

text \<open>
  Claim C4, on the examples: the observation without \<^verbatim>\<open>hex\<close> changes nothing, the one
  with \<^verbatim>\<open>hex = "ABC1"\<close> and no latitude gives an aircraft row and no position, the
  complete one gives a position, and the whole run persists one position. With the
  capture time \<open>2 ^ 53 + 1\<close> the position holds the nearest double \<open>2 ^ 53\<close>; with a
  capture time of more than 64 bits the insert raises, and the run persists nothing.
\<close>

theorem position_persisted_iff_witness:
  "\<not> truthy (obs_hex obs_no_hex)
   \<and> process_observation (PyFloat 0) obs_no_hex empty_db = (None, empty_db)
   \<and> truthy (obs_hex obs_no_lat) \<and> obs_lat obs_no_lat = None
   \<and> db_aircraft (snd (process_observation (PyFloat 0) obs_no_lat empty_db))
       = [\<lparr>row_icao = ''ABC1'', row_registration = Some ''N1'', row_type = Some ''B738''\<rparr>]
   \<and> db_positions (snd (process_observation (PyFloat 0) obs_no_lat empty_db)) = []
   \<and> truthy (obs_hex obs_full) \<and> obs_lat obs_full \<noteq> None \<and> obs_lon obs_full \<noteq> None
   \<and> position_binds (PyInt 9007199254740993) obs_full
   \<and> map position_key
         (db_positions (snd (process_observation (PyInt 9007199254740993) obs_full empty_db)))
       = [(''abc1'', 9007199254740992, 41.3, 2.1)]
   \<and> \<not> position_binds (PyInt 10000000000000000000) obs_full
   \<and> process_observation (PyInt 10000000000000000000) obs_full empty_db
       = (Some OverflowError,
          empty_db\<lparr>db_aircraft :=
            [\<lparr>row_icao = ''abc1'', row_registration = Some ''N1'', row_type = Some ''B738''\<rparr>]\<rparr>)
   \<and> fst (prepare_data example_fs) = Inr ''OK''
   \<and> position_count (snd (prepare_data example_fs)) = 1
   \<and> fst (prepare_data overflow_fs) = Inl OverflowError
   \<and> position_count (snd (prepare_data overflow_fs)) = 0
   \<and> aircraft_rows (snd (prepare_data overflow_fs)) = []"
proof -
  note no_hex = position_persisted_iff [of obs_no_hex "PyFloat 0" empty_db example_fs]
  note no_lat = position_persisted_iff [of obs_no_lat "PyFloat 0" empty_db example_fs]
  note full = position_persisted_iff [of obs_full "PyInt 9007199254740993" empty_db example_fs]
  note over = position_persisted_iff [of obs_full "PyInt 10000000000000000000" empty_db overflow_fs]
  have a: "\<not> truthy (obs_hex obs_no_hex)"
    by (simp add: obs_no_hex_def obs_full_def)
  have b: "truthy (obs_hex obs_no_lat) \<and> obs_lat obs_no_lat = None"
    by (simp add: obs_no_lat_def obs_full_def)
  have c: "truthy (obs_hex obs_full) \<and> obs_lat obs_full \<noteq> None \<and> obs_lon obs_full \<noteq> None"
    by (simp add: obs_full_def)
  have binds: "position_binds (PyInt 9007199254740993) obs_full"
    by (simp add: position_binds_def obs_full_def fits_int64_def)
  have overflows: "\<not> position_binds (PyInt 10000000000000000000) obs_full"
    by (simp add: position_binds_def fits_int64_def)
  have d: "fst (prepare_data example_fs) = Inr ''OK''"
    by (simp add: example_prepared)
  have e: "fst (prepare_data overflow_fs) \<noteq> Inr ''OK''"
    by (simp add: overflow_failed)
  from no_hex a have 1: "process_observation (PyFloat 0) obs_no_hex empty_db = (None, empty_db)"
    by blast
  from no_lat b have 2: "db_aircraft (snd (process_observation (PyFloat 0) obs_no_lat empty_db))
      = [\<lparr>row_icao = ''ABC1'', row_registration = Some ''N1'', row_type = Some ''B738''\<rparr>]"
    by (simp add: obs_no_lat_def obs_full_def empty_db_def)
  from no_lat b have 3: "db_positions (snd (process_observation (PyFloat 0) obs_no_lat empty_db)) = []"
    by (simp add: empty_db_def)
  from full c binds have 4: "map position_key
        (db_positions (snd (process_observation (PyInt 9007199254740993) obs_full empty_db)))
      = [(''abc1'', 9007199254740992, 41.3, 2.1)]"
    by (simp add: obs_full_def empty_db_def position_key_def int_to_double_rounded)
  from over c overflows
  have 5: "fst (process_observation (PyInt 10000000000000000000) obs_full empty_db)
        = Some OverflowError"
    by blast
  from over c
  have "db_aircraft (snd (process_observation (PyInt 10000000000000000000) obs_full empty_db))
      = [\<lparr>row_icao = ''abc1'', row_registration = Some ''N1'', row_type = Some ''B738''\<rparr>]"
    by (simp add: obs_full_def empty_db_def)
  moreover from over c overflows
  have "db_positions (snd (process_observation (PyInt 10000000000000000000) obs_full empty_db))
      = []"
    by (simp add: empty_db_def)
  moreover
  have "db_seq (snd (process_observation (PyInt 10000000000000000000) obs_full empty_db)) = 0"
    by (simp add: obs_full_def prepare_eval)
  ultimately
  have 6: "snd (process_observation (PyInt 10000000000000000000) obs_full empty_db)
      = empty_db\<lparr>db_aircraft :=
          [\<lparr>row_icao = ''abc1'', row_registration = Some ''N1'', row_type = Some ''B738''\<rparr>]\<rparr>"
    by (simp add: empty_db_def)
  have 7: "position_count (snd (prepare_data example_fs)) = 1"
    by (simp add: example_prepared position_count_def)
  from over e have 8: "position_count (snd (prepare_data overflow_fs)) = 0
      \<and> aircraft_rows (snd (prepare_data overflow_fs)) = []"
    by blast
  from 5 6 have 9: "process_observation (PyInt 10000000000000000000) obs_full empty_db
       = (Some OverflowError,
          empty_db\<lparr>db_aircraft :=
            [\<lparr>row_icao = ''abc1'', row_registration = Some ''N1'', row_type = Some ''B738''\<rparr>]\<rparr>)"
    by (simp add: prod_eq_iff)
  show ?thesis
    using a b c d binds overflows 1 2 3 4 7 8 9 overflow_failed by simp
qed

section \<open>Empty input, reset and reruns\<close>

lemma process_observation_error:
  "fst (process_observation ts a d) = Some e \<Longrightarrow> e = OverflowError"
  by (cases "obs_hex a")
     (auto simp: process_observation_def insert_position_def Let_def
           split: option.splits if_splits)

lemma process_observations_error:
  "fst (process_observations ts as d) = Some e \<Longrightarrow> e = OverflowError"
proof (induction as arbitrary: d)
  case Nil
  then show ?case by simp
next
  case (Cons a as)
  obtain e1 d1 where step: "process_observation ts a d = (e1, d1)"
    by (cases "process_observation ts a d")
  show ?case
  proof (cases e1)
    case None
    with step Cons.prems Cons.IH [of d1] show ?thesis by simp
  next
    case (Some e2)
    with step Cons.prems have "e = e2" by simp
    with Some step process_observation_error [of ts a d e2] show ?thesis by simp
  qed
qed

lemma process_file_not_no_raw: "process_file f d \<noteq> Inl NoRawFiles"
proof (cases f)
  case Unreadable
  then show ?thesis by (simp add: process_file_def)
next
  case (Snapshot payload)
  obtain e d1 where loop:
    "process_observations (payload_now payload) (payload_aircraft payload) d = (e, d1)"
    by (cases "process_observations (payload_now payload) (payload_aircraft payload) d")
  show ?thesis
  proof (cases e)
    case None
    with loop Snapshot show ?thesis by (simp add: process_file_def Let_def)
  next
    case (Some e1)
    with loop process_observations_error
      [of "payload_now payload" "payload_aircraft payload" d e1]
    have "e1 = OverflowError" by simp
    with Some loop Snapshot show ?thesis by (simp add: process_file_def Let_def)
  qed
qed

lemma process_files_not_no_raw: "process_files fs d \<noteq> Inl NoRawFiles"
  by (induction fs arbitrary: d) (auto simp: process_file_not_no_raw split: sum.splits)

lemma prepare_data_ignores_store: "prepare_data (s\<lparr>prepared_db := old\<rparr>) = prepare_data s"
  by (simp add: prepare_data_def init_db_def)

lemma prepare_data_state: "\<exists>new. snd (prepare_data s) = s\<lparr>prepared_db := new\<rparr>"
  by (auto simp: prepare_data_def init_db_def Let_def split: sum.splits)

lemma prepare_data_rerun: "prepare_data (snd (prepare_data s)) = prepare_data s"
proof -
  obtain new where "snd (prepare_data s) = s\<lparr>prepared_db := new\<rparr>"
    using prepare_data_state by blast
  then show ?thesis
    by (simp add: prepare_data_ignores_store)
qed

lemma prepare_data_iterate:
  "((\<lambda>s. snd (prepare_data s)) ^^ Suc n) s = snd (prepare_data s)"
proof (induction n)
  case 0
  show ?case by simp
next
  case (Suc n)
  have "((\<lambda>s. snd (prepare_data s)) ^^ Suc (Suc n)) s
        = snd (prepare_data (((\<lambda>s. snd (prepare_data s)) ^^ Suc n) s))"
    by simp
  also have "\<dots> = snd (prepare_data (snd (prepare_data s)))"
    by (simp only: Suc.IH)
  finally show ?case
    by (simp only: prepare_data_rerun)
qed

lemma prepare_data_iterate_state:
  "\<exists>new. ((\<lambda>s. snd (prepare_data s)) ^^ n) s = s\<lparr>prepared_db := new\<rparr>"
proof (cases n)
  case 0
  have "s = s\<lparr>prepared_db := prepared_db s\<rparr>" by simp
  with 0 show ?thesis by (metis funpow_0)
next
  case (Suc m)
  then show ?thesis
    using prepare_data_iterate [of m s] prepare_data_state [of s] by simp
qed

lemma prepare_data_no_raw_iff:
  "fst (prepare_data s) = Inl NoRawFiles \<longleftrightarrow> glob_json_gz (raw_dir s) = []"
  using process_files_not_no_raw
  by (auto simp: prepare_data_def Let_def split: sum.splits)

text \<open>
  Claim C9. When no file of the raw directory ends in \<^verbatim>\<open>.json.gz\<close>, \<^verbatim>\<open>prepare_data\<close>
  raises the error for missing raw files (the \<^verbatim>\<open>RuntimeError\<close> that the specification
  calls \<^verbatim>\<open>NoInputError\<close>), and the prepared directory is left without a database; the
  run fails with this error in no other case.
\<close>

theorem prepare_data_no_raw_files:
  "(glob_json_gz (raw_dir s) = [] \<longrightarrow>
      prepare_data s = (Inl NoRawFiles, s\<lparr>prepared_db := None\<rparr>))
   \<and> (fst (prepare_data s) = Inl NoRawFiles \<longleftrightarrow> glob_json_gz (raw_dir s) = [])"
  using prepare_data_no_raw_iff [of s] by (simp add: prepare_data_def)

theorem prepare_data_no_raw_files_witness:
  "glob_json_gz (raw_dir stale_fs) = []
   \<and> prepared_db stale_fs \<noteq> None
   \<and> fst (prepare_data stale_fs) = Inl NoRawFiles
   \<and> prepared_db (snd (prepare_data stale_fs)) = None"
proof -
  have empty: "glob_json_gz (raw_dir stale_fs) = []"
    by (simp add: stale_fs_def glob_json_gz_def endswith_def)
  from prepare_data_no_raw_files [of stale_fs] empty
  have "prepare_data stale_fs = (Inl NoRawFiles, stale_fs\<lparr>prepared_db := None\<rparr>)"
    by blast
  with empty show ?thesis
    by (simp add: stale_fs_def)
qed

text \<open>
  Claim C6. \<^verbatim>\<open>prepare_data\<close> clears the prepared directory and recreates the database
  before it reads a file, so its result and the state it leaves do not depend on the
  store it finds; running it any number of times on the same raw directory leaves the
  state of a single run, with both tables equal.
\<close>

theorem prepare_data_idempotent:
  "prepare_data (s\<lparr>prepared_db := old\<rparr>) = prepare_data s
   \<and> ((\<lambda>s. snd (prepare_data s)) ^^ Suc n) s = snd (prepare_data s)
   \<and> prepare_data (((\<lambda>s. snd (prepare_data s)) ^^ n) s) = prepare_data s"
proof -
  obtain new where "((\<lambda>s. snd (prepare_data s)) ^^ n) s = s\<lparr>prepared_db := new\<rparr>"
    using prepare_data_iterate_state by blast
  then have "prepare_data (((\<lambda>s. snd (prepare_data s)) ^^ n) s) = prepare_data s"
    by (simp add: prepare_data_ignores_store)
  then show ?thesis
    by (simp only: prepare_data_ignores_store prepare_data_iterate simp_thms)
qed

theorem prepare_data_idempotent_witness:
  "((\<lambda>s. snd (prepare_data s)) ^^ 3) example_fs = snd (prepare_data example_fs)
   \<and> position_count (((\<lambda>s. snd (prepare_data s)) ^^ 3) example_fs) = 1
   \<and> map row_icao (aircraft_rows (((\<lambda>s. snd (prepare_data s)) ^^ 3) example_fs))
       = [''abc1'', ''ABC1'']"
proof -
  have "((\<lambda>s. snd (prepare_data s)) ^^ Suc 2) example_fs = snd (prepare_data example_fs)"
    using prepare_data_idempotent [where s = example_fs and n = 2] by blast
  moreover have "(3::nat) = Suc 2"
    by simp
  ultimately have "((\<lambda>s. snd (prepare_data s)) ^^ 3) example_fs = snd (prepare_data example_fs)"
    by (simp only:)
  then show ?thesis
    by (simp add: example_prepared position_count_def aircraft_rows_def)
qed

subsection \<open>No duplicate aircraft\<close>

lemma process_observation_distinct:
  "distinct (map row_icao (db_aircraft d)) \<Longrightarrow>
     distinct (map row_icao (db_aircraft (snd (process_observation ts a d))))"
proof (cases "truthy (obs_hex a)")
  case True
  assume "distinct (map row_icao (db_aircraft d))"
  then show ?thesis
    by (simp add: process_observation_aircraft [OF True] upsert_aircraft_distinct)
next
  case False
  assume "distinct (map row_icao (db_aircraft d))"
  then show ?thesis
    by (simp add: process_observation_skip [OF False])
qed

lemma process_observations_distinct:
  "distinct (map row_icao (db_aircraft d)) \<Longrightarrow>
     distinct (map row_icao (db_aircraft (snd (process_observations ts as d))))"
proof (induction as arbitrary: d)
  case Nil
  then show ?case by simp
next
  case (Cons a as)
  obtain e d1 where step: "process_observation ts a d = (e, d1)"
    by (cases "process_observation ts a d")
  with process_observation_distinct [OF Cons.prems, of ts a]
  have d1: "distinct (map row_icao (db_aircraft d1))" by simp
  show ?case
  proof (cases e)
    case None
    with step Cons.IH [OF d1] show ?thesis by simp
  next
    case (Some e1)
    with step d1 show ?thesis by simp
  qed
qed

lemma process_file_distinct:
  "process_file f d = Inr d' \<Longrightarrow> distinct (map row_icao (db_aircraft d)) \<Longrightarrow>
     distinct (map row_icao (db_aircraft d'))"
proof (cases f)
  case Unreadable
  assume "process_file f d = Inr d'"
  with Unreadable show ?thesis by (simp add: process_file_def)
next
  case (Snapshot payload)
  assume run: "process_file f d = Inr d'" and dist: "distinct (map row_icao (db_aircraft d))"
  obtain e d1 where loop:
    "process_observations (payload_now payload) (payload_aircraft payload) d = (e, d1)"
    by (cases "process_observations (payload_now payload) (payload_aircraft payload) d")
  with run Snapshot have "d1 = d'"
    by (auto simp: process_file_def Let_def split: option.splits)
  with loop process_observations_distinct
    [OF dist, of "payload_now payload" "payload_aircraft payload"]
  show ?thesis by simp
qed

lemma process_files_distinct:
  "process_files fs d = Inr d' \<Longrightarrow> distinct (map row_icao (db_aircraft d)) \<Longrightarrow>
     distinct (map row_icao (db_aircraft d'))"
proof (induction fs arbitrary: d)
  case Nil
  then show ?case by simp
next
  case (Cons f fs)
  from Cons.prems(1) obtain d1 where f: "process_file f d = Inr d1"
    and rest: "process_files fs d1 = Inr d'"
    by (auto split: sum.splits)
  from process_file_distinct [OF f Cons.prems(2)] Cons.IH [OF rest] show ?case
    by blast
qed

lemma prepare_data_distinct:
  "distinct (map row_icao (aircraft_rows (snd (prepare_data s))))"
proof (cases "process_files (map (load_file (raw_dir s)) (glob_json_gz (raw_dir s))) empty_db")
  case (Inl e)
  then show ?thesis
    by (simp add: prepare_data_def aircraft_rows_def init_db_def empty_db_def Let_def)
next
  case (Inr d)
  from process_files_distinct [OF Inr] have "distinct (map row_icao (db_aircraft d))"
    by (simp add: empty_db_def)
  with Inr show ?thesis
    by (simp add: prepare_data_def aircraft_rows_def init_db_def Let_def)
qed

text \<open>
  Claim C5, on the example: after the second run the position table has one row, as
  after the first, not two.
\<close>

theorem prepare_twice_counterexample:
  "position_count (snd (prepare_data (snd (prepare_data example_fs))))
     \<noteq> 2 * position_count (snd (prepare_data example_fs))"
  by (simp add: example_prepared prepare_data_ignores_store position_count_def)


text \<open>
  Claim C5, as the code has it. A second run on an unchanged raw directory gives the same
  aircraft table, in which no icao occurs twice, and also the same position table: the
  store is reset before each run, so the number of position events stays what it was.
\<close>

theorem prepare_twice_same_tables:
  "aircraft_rows (snd (prepare_data (snd (prepare_data s)))) = aircraft_rows (snd (prepare_data s))
   \<and> distinct (map row_icao (aircraft_rows (snd (prepare_data s))))
   \<and> prepared_db (snd (prepare_data (snd (prepare_data s)))) = prepared_db (snd (prepare_data s))
   \<and> position_count (snd (prepare_data (snd (prepare_data s))))
       = position_count (snd (prepare_data s))"
  by (simp add: prepare_data_rerun prepare_data_distinct)

theorem prepare_twice_same_tables_witness:
  "map row_icao (aircraft_rows (snd (prepare_data (snd (prepare_data example_fs)))))
     = [''abc1'', ''ABC1'']
   \<and> position_count (snd (prepare_data (snd (prepare_data example_fs)))) = 1
   \<and> position_count (snd (prepare_data example_fs)) = 1"
  using prepare_twice_same_tables [of example_fs]
  by (simp add: example_prepared position_count_def aircraft_rows_def)

section \<open>The position and statistics endpoints\<close>

text \<open>
  Claim C1. On the store prepared from the example, which has no position of the aircraft
  \<^verbatim>\<open>UNKNOWN\<close>, the specification expects the empty list; \<^verbatim>\<open>get_aircraft_position\<close> returns
  its fixed one-element list.
\<close>

theorem get_aircraft_position_fixed:
  "spec_list_positions (snd (prepare_data example_fs)) ''UNKNOWN'' = []
   \<and> get_aircraft_position (snd (prepare_data example_fs)) ''UNKNOWN'' 1000 0
       = [\<lparr>out_timestamp = 1609275898.6, out_lat = 30.404617, out_lon = - 86.476566\<rparr>]"
  by (simp add: example_prepared spec_list_positions_def get_aircraft_position_def)

text \<open>
  Claim C2. On the store prepared from the three snapshots of the claim the specification
  expects the maxima 300 and 50 and an emergency; \<^verbatim>\<open>get_aircraft_statistics\<close> returns its
  fixed values 300000, 493 and no emergency.
\<close>

theorem get_aircraft_statistics_fixed:
  "spec_stats (snd (prepare_data stats_fs)) ''abc1'' = (Some 300, Some 50, True)
   \<and> get_aircraft_statistics (snd (prepare_data stats_fs)) ''abc1''
       = \<lparr>max_altitude_baro = 300000, max_ground_speed = 493, had_emergency = False\<rparr>"
  by (simp add: stats_prepared spec_stats_def get_aircraft_statistics_def)

section \<open>The aircraft listing\<close>

lemma sql_limit_offset_nonneg:
  "0 \<le> limit \<Longrightarrow> sql_limit_offset limit offset rows = take (nat limit) (drop (nat offset) rows)"
  by (simp add: sql_limit_offset_def)

lemma fits_int64_nonneg: "0 \<le> i \<Longrightarrow> fits_int64 i \<longleftrightarrow> i < 2 ^ 63"
  by (simp add: fits_int64_def)

lemma list_aircraft_page:
  assumes "prepared_db s = Some d" "0 \<le> num_results" "0 \<le> page"
    and "num_results < 2 ^ 63" "page * num_results < 2 ^ 63"
  shows "list_aircraft s num_results page
         = Inr (take (nat num_results) (drop (nat page * nat num_results)
                  (sort_key row_icao (db_aircraft d))))"
proof -
  from assms have "fits_int64 num_results" "fits_int64 (page * num_results)"
    by (simp_all add: fits_int64_nonneg)
  with assms(1-3) show ?thesis
    by (simp add: list_aircraft_def sql_limit_offset_nonneg nat_mult_distrib)
qed

lemma list_aircraft_overflow:
  assumes "prepared_db s = Some d" "0 \<le> num_results" "0 \<le> page"
    and "\<not> (num_results < 2 ^ 63 \<and> page * num_results < 2 ^ 63)"
  shows "list_aircraft s num_results page = Inl OverflowError"
proof -
  from assms have "\<not> (fits_int64 num_results \<and> fits_int64 (page * num_results))"
    by (simp add: fits_int64_nonneg)
  with assms(1) show ?thesis
    by (simp add: list_aircraft_def)
qed

lemma sorted_take_drop:
  "sorted (map f xs) \<Longrightarrow> sorted (map f (take n (drop k xs)))"
  by (simp add: take_map [symmetric] drop_map [symmetric] sorted_wrt_take sorted_wrt_drop)

text \<open>
  Claim C8. With a prepared database, non-negative parameters and an offset
  \<open>page * num_results\<close> that fits a signed 64-bit integer (as does \<open>num_results\<close>),
  \<^verbatim>\<open>list_aircraft\<close> returns the \<open>num_results\<close> rows that follow the first
  \<open>page * num_results\<close> rows of the aircraft table sorted by icao, a list that holds the
  rows of the table in ascending order of icao; the page itself is ascending. With 5
  results per page, page 1 is rows 6 to 10 of that order (indices 5 to 9). When the limit
  or the offset does not fit 64 bits the parameters do not bind and the call raises
  \<^verbatim>\<open>OverflowError\<close>.
\<close>

theorem list_aircraft_paginated:
  assumes "prepared_db s = Some d" "0 \<le> num_results" "0 \<le> page"
  shows "(num_results < 2 ^ 63 \<and> page * num_results < 2 ^ 63 \<longrightarrow>
            list_aircraft s num_results page
              = Inr (take (nat num_results) (drop (nat page * nat num_results)
                       (sort_key row_icao (db_aircraft d))))
            \<and> (\<exists>rows. list_aircraft s num_results page = Inr rows \<and> sorted (map row_icao rows)))
         \<and> (\<not> (num_results < 2 ^ 63 \<and> page * num_results < 2 ^ 63) \<longrightarrow>
              list_aircraft s num_results page = Inl OverflowError)
         \<and> sorted (map row_icao (sort_key row_icao (db_aircraft d)))
         \<and> mset (sort_key row_icao (db_aircraft d)) = mset (db_aircraft d)
         \<and> list_aircraft s 5 1 = Inr (take 5 (drop 5 (sort_key row_icao (db_aircraft d))))
         \<and> (\<forall>i. i < 5 \<and> 5 + i < length (db_aircraft d) \<longrightarrow>
               (\<exists>rows. list_aircraft s 5 1 = Inr rows
                  \<and> rows ! i = sort_key row_icao (db_aircraft d) ! (5 + i)))"
proof -
  have second: "list_aircraft s 5 1 = Inr (take 5 (drop 5 (sort_key row_icao (db_aircraft d))))"
    using list_aircraft_page [OF assms(1), of 5 1] by simp
  have ordered: "sorted (map row_icao (sort_key row_icao (db_aircraft d)))"
    by (rule sorted_sort_key)
  have page: "list_aircraft s num_results page
        = Inr (take (nat num_results) (drop (nat page * nat num_results)
                 (sort_key row_icao (db_aircraft d))))
      \<and> (\<exists>rows. list_aircraft s num_results page = Inr rows \<and> sorted (map row_icao rows))"
    if "num_results < 2 ^ 63 \<and> page * num_results < 2 ^ 63"
  proof -
    from that have eq: "list_aircraft s num_results page
        = Inr (take (nat num_results) (drop (nat page * nat num_results)
                 (sort_key row_icao (db_aircraft d))))"
      using list_aircraft_page [OF assms] by blast
    have "sorted (map row_icao (take (nat num_results) (drop (nat page * nat num_results)
             (sort_key row_icao (db_aircraft d)))))"
      using ordered by (rule sorted_take_drop)
    with eq show ?thesis by simp
  qed
  have overflow: "list_aircraft s num_results page = Inl OverflowError"
    if "\<not> (num_results < 2 ^ 63 \<and> page * num_results < 2 ^ 63)"
    using list_aircraft_overflow [OF assms that] .
  have nth: "\<exists>rows. list_aircraft s 5 1 = Inr rows
      \<and> rows ! i = sort_key row_icao (db_aircraft d) ! (5 + i)"
    if "i < 5 \<and> 5 + i < length (db_aircraft d)" for i
    using that second by simp
  have perm: "mset (sort_key row_icao (db_aircraft d)) = mset (db_aircraft d)"
    by simp
  from page overflow ordered perm second nth show ?thesis
    by blast
qed

theorem list_aircraft_paginated_witness:
  "prepared_db paging_fs \<noteq> None
   \<and> list_aircraft paging_fs 5 1
       = Inr (map bare_row [''a06'', ''a07'', ''a08'', ''a09'', ''a10''])
   \<and> list_aircraft paging_fs 5 0
       = Inr (map bare_row [''a01'', ''a02'', ''a03'', ''a04'', ''a05''])
   \<and> list_aircraft paging_fs 5 2 = Inr (map bare_row [''a11''])
   \<and> list_aircraft paging_fs 1000 100000000000000000 = Inl OverflowError"
proof -
  define d where "d = the (prepared_db paging_fs)"
  have stored: "prepared_db paging_fs = Some d"
    by (simp add: d_def paging_fs_def)
  have order: "sort_key row_icao (db_aircraft d)
      = map bare_row [''a01'', ''a02'', ''a03'', ''a04'', ''a05'', ''a06'', ''a07'', ''a08'',
                      ''a09'', ''a10'', ''a11'']"
    by (simp add: d_def paging_fs_def bare_row_def)
  show ?thesis
    using list_aircraft_paginated [OF stored, of 5 1]
      list_aircraft_paginated [OF stored, of 5 0]
      list_aircraft_paginated [OF stored, of 5 2]
      list_aircraft_paginated [OF stored, of 1000 100000000000000000]
    by (simp add: stored order)
qed

section \<open>The object-store variant against the direct variant\<close>

subsection \<open>Suffixes\<close>

lemma endswith_iff: "endswith s suf \<longleftrightarrow> (\<exists>zs. s = zs @ suf)"
proof
  assume "endswith s suf"
  then have "s = take (length s - length suf) s @ suf"
    by (metis append_take_drop_id endswith_def)
  then show "\<exists>zs. s = zs @ suf" ..
next
  assume "\<exists>zs. s = zs @ suf"
  then show "endswith s suf"
    by (auto simp: endswith_def)
qed

lemma endswith_json_not_slash: "endswith key ''.json.gz'' \<Longrightarrow> \<not> endswith key ''/''"
  by (auto simp: endswith_iff)

lemma endswith_after_prefix:
  assumes "p \<noteq> []" "last p \<notin> set suf"
  shows "endswith (p @ n) suf \<longleftrightarrow> endswith n suf"
proof
  assume "endswith n suf"
  then show "endswith (p @ n) suf"
    by (auto simp: endswith_iff)
next
  assume "endswith (p @ n) suf"
  then obtain zs where "p @ n = zs @ suf"
    by (auto simp: endswith_iff)
  then obtain us where "p = zs @ us \<and> us @ n = suf \<or> p @ us = zs \<and> n = us @ suf"
    by (auto simp: append_eq_append_conv2)
  then show "endswith n suf"
  proof
    assume c: "p = zs @ us \<and> us @ n = suf"
    show ?thesis
    proof (cases "us = []")
      case True
      with c show ?thesis by (simp add: endswith_def)
    next
      case False
      with c have "last p = last us" by simp
      moreover from False have "last us \<in> set us" by simp
      ultimately have "last p \<in> set suf" using c by auto
      with assms show ?thesis by simp
    qed
  next
    assume "p @ us = zs \<and> n = us @ suf"
    then show ?thesis by (auto simp: endswith_iff)
  qed
qed

lemma endswith_S3_PREFIX:
  "endswith (S3_PREFIX @ name) ''.json.gz'' \<longleftrightarrow> endswith name ''.json.gz''"
  by (rule endswith_after_prefix) (simp_all add: S3_PREFIX_def)

lemma startswith_iff: "startswith s pre \<longleftrightarrow> (\<exists>zs. s = pre @ zs)"
  by (metis append_eq_conv_conj startswith_def)

lemma basename_after_slash:
  "CHR ''/'' \<notin> set n \<Longrightarrow> basename (p @ CHR ''/'' # n) = n"
  by (simp add: basename_def takeWhile_append)

lemma basename_S3_PREFIX: "CHR ''/'' \<notin> set n \<Longrightarrow> basename (S3_PREFIX @ n) = n"
  using basename_after_slash [of n "''raw/day=20231101''"] by (simp add: S3_PREFIX_def)

subsection \<open>The listing loop\<close>

lemma list_keys_loop_all:
  "list_keys_loop b token keys
     = keys @ filter (\<lambda>key. \<not> (endswith key ''/'' \<or> \<not> endswith key ''.json.gz''))
                (drop (case token of None \<Rightarrow> 0 | Some n \<Rightarrow> n) (keys_with_prefix b S3_PREFIX))"
proof (induction b token keys rule: list_keys_loop.induct)
  case (1 b token keys)
  define start where "start = (case token of None \<Rightarrow> 0 | Some n \<Rightarrow> n)"
  define rest where "rest = drop start (keys_with_prefix b S3_PREFIX)"
  define wanted where "wanted = (\<lambda>key. \<not> (endswith key ''/'' \<or> \<not> endswith key ''.json.gz''))"
  show ?case
  proof (cases "max_keys < length rest")
    case True
    have resp: "is_truncated (list_objects_v2 b S3_PREFIX token)"
      "next_continuation_token (list_objects_v2 b S3_PREFIX token) = Some (start + max_keys)"
      "contents (list_objects_v2 b S3_PREFIX token) = take max_keys rest"
      using True by (simp_all add: list_objects_v2_def Let_def start_def rest_def)
    have "list_keys_loop b token keys
          = list_keys_loop b (Some (start + max_keys)) (keys @ filter wanted (take max_keys rest))"
      by (subst list_keys_loop.simps) (simp add: resp Let_def wanted_def)
    also have "\<dots> = (keys @ filter wanted (take max_keys rest))
          @ filter wanted (drop (start + max_keys) (keys_with_prefix b S3_PREFIX))"
      using "1.IH" [OF refl refl resp(1)] by (simp add: resp wanted_def)
    also have "drop (start + max_keys) (keys_with_prefix b S3_PREFIX) = drop max_keys rest"
      by (simp add: rest_def add.commute)
    also have "(keys @ filter wanted (take max_keys rest)) @ filter wanted (drop max_keys rest)
          = keys @ filter wanted rest"
      by (simp add: filter_append [symmetric])
    finally show ?thesis
      by (simp add: wanted_def rest_def start_def)
  next
    case False
    have resp: "\<not> is_truncated (list_objects_v2 b S3_PREFIX token)"
      "contents (list_objects_v2 b S3_PREFIX token) = rest"
      using False by (simp_all add: list_objects_v2_def Let_def start_def rest_def)
    have "list_keys_loop b token keys = keys @ filter wanted rest"
      by (subst list_keys_loop.simps) (simp add: resp Let_def wanted_def)
    then show ?thesis
      by (simp add: wanted_def rest_def start_def)
  qed
qed

lemma listed_keys_eq_spec: "sort (list_keys_loop b None []) = spec_staged_keys b"
proof -
  have "filter (\<lambda>key. \<not> (endswith key ''/'' \<or> \<not> endswith key ''.json.gz'')) ks
      = filter (\<lambda>key. endswith key ''.json.gz'') ks" for ks
    by (rule filter_cong) (auto dest: endswith_json_not_slash)
  then have "list_keys_loop b None []
      = filter (\<lambda>key. endswith key ''.json.gz'') (keys_with_prefix b S3_PREFIX)"
    by (simp only: list_keys_loop_all option.case drop_0 append_Nil)
  moreover have "sorted (filter (\<lambda>key. endswith key ''.json.gz'') (keys_with_prefix b S3_PREFIX))"
    by (simp add: keys_with_prefix_def sorted_wrt_filter)
  ultimately have "sort (list_keys_loop b None [])
      = filter (\<lambda>key. endswith key ''.json.gz'') (keys_with_prefix b S3_PREFIX)"
    by (simp add: sorted_sort_id)
  also have "\<dots> = spec_staged_keys b"
    unfolding keys_with_prefix_def spec_staged_keys_def
    by (simp add: filter_sort remdups_filter)
  finally show ?thesis .
qed

subsection \<open>The transform reads only the snapshot files\<close>

lemma glob_json_gz_set:
  "set (glob_json_gz d) = {name. endswith name ''.json.gz'' \<and> map_of d name \<noteq> None}"
  by (auto simp: glob_json_gz_def map_of_eq_None_iff)

lemma glob_json_gz_sorted_list:
  "glob_json_gz d = sorted_list_of_set (set (glob_json_gz d))"
  by (simp only: glob_json_gz_def set_sort set_remdups sorted_list_of_set_sort_remdups)

lemma glob_json_gz_cong:
  assumes "\<forall>name. endswith name ''.json.gz'' \<longrightarrow> map_of d1 name = map_of d2 name"
  shows "glob_json_gz d1 = glob_json_gz d2"
proof -
  have "set (glob_json_gz d1) = set (glob_json_gz d2)"
    using assms by (auto simp: glob_json_gz_set)
  then show ?thesis
    by (metis glob_json_gz_sorted_list)
qed

lemma load_files_cong:
  assumes "\<forall>name. endswith name ''.json.gz'' \<longrightarrow> map_of d1 name = map_of d2 name"
  shows "map (load_file d1) (glob_json_gz d1) = map (load_file d2) (glob_json_gz d2)"
proof -
  have "load_file d1 name = load_file d2 name" if "name \<in> set (glob_json_gz d2)" for name
    using that assms by (simp add: glob_json_gz_set load_file_def)
  then have "map (load_file d1) (glob_json_gz d2) = map (load_file d2) (glob_json_gz d2)"
    by simp
  then show ?thesis
    by (simp add: glob_json_gz_cong [OF assms])
qed

lemma prepare_data_result:
  "fst (prepare_data s)
     = (if glob_json_gz (raw_dir s) = [] then Inl NoRawFiles
        else case process_files (map (load_file (raw_dir s)) (glob_json_gz (raw_dir s))) empty_db of
               Inl e \<Rightarrow> Inl e
             | Inr d \<Rightarrow> Inr ''OK'')"
  by (simp add: prepare_data_def Let_def init_db_def split: sum.splits)

lemma prepare_data_store:
  "prepared_db (snd (prepare_data s))
     = (if glob_json_gz (raw_dir s) = [] then None
        else case process_files (map (load_file (raw_dir s)) (glob_json_gz (raw_dir s))) empty_db of
               Inl e \<Rightarrow> Some empty_db
             | Inr d \<Rightarrow> Some d)"
  by (simp add: prepare_data_def Let_def init_db_def split: sum.splits)

lemma prepare_data_cong:
  assumes "\<forall>name. endswith name ''.json.gz'' \<longrightarrow> map_of (raw_dir s1) name = map_of (raw_dir s2) name"
  shows "fst (prepare_data s1) = fst (prepare_data s2)
         \<and> prepared_db (snd (prepare_data s1)) = prepared_db (snd (prepare_data s2))"
  by (simp only: prepare_data_result prepare_data_store load_files_cong [OF assms])
     (simp only: glob_json_gz_cong [OF assms])

subsection \<open>The staged directory\<close>

lemma map_of_write_file:
  "map_of (write_file d n f) name = (if name = n then Some f else map_of d name)"
  by (induction d) (auto simp: write_file_def)

lemma download_all_Cons:
  "download_all b (key # keys) d
     = download_all b keys (write_file d (basename key) (get_object b key))"
  by (simp add: download_all_def)

lemma map_of_download_all:
  assumes "\<forall>k \<in> set keys. basename k = name \<longrightarrow> k = key"
  shows "map_of (download_all b keys d) name
         = (if key \<in> set keys \<and> basename key = name then Some (get_object b key)
            else map_of d name)"
  using assms
proof (induction keys arbitrary: d)
  case Nil
  show ?case by (simp add: download_all_def)
next
  case (Cons k keys)
  let ?d = "write_file d (basename k) (get_object b k)"
  from Cons.prems have rest: "\<forall>k \<in> set keys. basename k = name \<longrightarrow> k = key"
    by simp
  have step: "map_of (download_all b (k # keys) d) name
      = (if key \<in> set keys \<and> basename key = name then Some (get_object b key)
         else map_of ?d name)"
    by (simp only: download_all_Cons Cons.IH [OF rest])
  show ?case
  proof (cases "basename k = name")
    case True
    with Cons.prems have "k = key" by simp
    with True step show ?thesis
      by (simp add: map_of_write_file)
  next
    case False
    then have "key \<noteq> k \<or> basename key \<noteq> name" by blast
    with False step show ?thesis
      by (auto simp: map_of_write_file)
  qed
qed

lemma spec_staged_keys_set:
  "set (spec_staged_keys b)
     = {key. map_of b key \<noteq> None \<and> startswith key S3_PREFIX \<and> endswith key ''.json.gz''}"
  by (auto simp: spec_staged_keys_def map_of_eq_None_iff)

lemma get_object_Some: "map_of b key \<noteq> None \<Longrightarrow> Some (get_object b key) = map_of b key"
  by (auto simp: get_object_def)

lemma staged_file:
  assumes flat: "\<forall>key \<in> set (spec_staged_keys b). CHR ''/'' \<notin> set (drop (length S3_PREFIX) key)"
    and name: "endswith name ''.json.gz''"
  shows "map_of (download_all b (spec_staged_keys b) []) name = map_of b (S3_PREFIX @ name)"
proof -
  have unique: "\<forall>k \<in> set (spec_staged_keys b). basename k = name \<longrightarrow> k = S3_PREFIX @ name"
  proof (intro ballI impI)
    fix k
    assume k: "k \<in> set (spec_staged_keys b)" and base: "basename k = name"
    from k obtain n where n: "k = S3_PREFIX @ n"
      by (auto simp: spec_staged_keys_set startswith_iff)
    with flat k have "CHR ''/'' \<notin> set n" by auto
    then have "basename k = n" by (simp add: n basename_S3_PREFIX)
    with base n show "k = S3_PREFIX @ name" by simp
  qed
  show ?thesis
  proof (cases "S3_PREFIX @ name \<in> set (spec_staged_keys b)")
    case True
    with flat have "CHR ''/'' \<notin> set name" by auto
    then have "basename (S3_PREFIX @ name) = name" by (rule basename_S3_PREFIX)
    moreover from True have "map_of b (S3_PREFIX @ name) \<noteq> None"
      by (simp add: spec_staged_keys_set)
    ultimately show ?thesis
      using True by (simp add: map_of_download_all [OF unique] get_object_Some)
  next
    case False
    then have "map_of b (S3_PREFIX @ name) = None"
      using name by (simp add: spec_staged_keys_set startswith_def endswith_S3_PREFIX)
    with False show ?thesis
      by (simp add: map_of_download_all [OF unique])
  qed
qed

lemma s4_prepare_data_staged:
  "s4_prepare_data b s = prepare_data (s\<lparr>raw_dir := download_all b (spec_staged_keys b) []\<rparr>)"
  by (simp add: s4_prepare_data_def listed_keys_eq_spec Let_def)

lemma prepare_data_raw_dir: "raw_dir (snd (prepare_data s)) = raw_dir s"
  by (auto simp: prepare_data_def init_db_def Let_def split: sum.splits)

lemma s4_staged_raw_dir:
  "raw_dir (snd (s4_prepare_data b s)) = download_all b (spec_staged_keys b) []"
  by (simp add: s4_prepare_data_staged prepare_data_raw_dir)

subsection \<open>File names are last path segments\<close>

lemma basename_no_slash: "CHR ''/'' \<notin> set (basename key)"
  by (auto simp: basename_def dest: set_takeWhileD)

lemma basename_last_segment:
  assumes "CHR ''/'' \<in> set key"
  shows "endswith key (CHR ''/'' # basename key)"
proof -
  let ?P = "\<lambda>c. c \<noteq> CHR ''/''"
  from assms have "dropWhile ?P (rev key) \<noteq> []"
    by (simp add: dropWhile_eq_Nil_conv)
  moreover from this have "\<not> ?P (hd (dropWhile ?P (rev key)))"
    by (rule hd_dropWhile)
  ultimately obtain rest where rest: "dropWhile ?P (rev key) = CHR ''/'' # rest"
    by (cases "dropWhile ?P (rev key)") auto
  have "rev key = takeWhile ?P (rev key) @ dropWhile ?P (rev key)"
    by simp
  then have "rev (rev key) = rev (takeWhile ?P (rev key) @ CHR ''/'' # rest)"
    by (simp only: rest)
  then have "key = rev rest @ CHR ''/'' # basename key"
    by (simp add: basename_def)
  then show ?thesis
    by (metis endswith_iff)
qed

lemma last_segment_basename:
  assumes "endswith key (CHR ''/'' # name)" "CHR ''/'' \<notin> set name"
  shows "basename key = name"
proof -
  from assms(1) obtain p where "key = p @ CHR ''/'' # name"
    by (auto simp: endswith_iff)
  with assms(2) show ?thesis
    by (simp add: basename_after_slash)
qed

lemma staged_key_has_slash: "key \<in> set (spec_staged_keys b) \<Longrightarrow> CHR ''/'' \<in> set key"
  by (auto simp: spec_staged_keys_set startswith_iff S3_PREFIX_def)

lemma spec_staged_keys_sorted: "sorted (spec_staged_keys b)"
  by (simp add: spec_staged_keys_def)

lemma download_all_snoc:
  "download_all b (keys @ [key]) d
     = write_file (download_all b keys d) (basename key) (get_object b key)"
  by (simp add: download_all_def)

lemma staged_lookup:
  assumes "sorted keys" "map_of (download_all b keys []) name = Some f"
  shows "\<exists>key \<in> set keys. basename key = name \<and> f = get_object b key
           \<and> (\<forall>k' \<in> set keys. basename k' = name \<longrightarrow> k' \<le> key)"
  using assms
proof (induction keys arbitrary: f rule: rev_induct)
  case Nil
  then show ?case by (simp add: download_all_def)
next
  case (snoc k keys)
  from snoc.prems(1) have sorted: "sorted keys" and below: "\<forall>x \<in> set keys. x \<le> k"
    by (simp_all add: sorted_append)
  show ?case
  proof (cases "basename k = name")
    case True
    with snoc.prems(2) have "f = get_object b k"
      by (simp add: download_all_snoc map_of_write_file)
    with True below show ?thesis by auto
  next
    case False
    with snoc.prems(2) have "map_of (download_all b keys []) name = Some f"
      by (auto simp: download_all_snoc map_of_write_file)
    from snoc.IH [OF sorted this] obtain key where key: "key \<in> set keys" "basename key = name"
      "f = get_object b key" "\<forall>k' \<in> set keys. basename k' = name \<longrightarrow> k' \<le> key"
      by blast
    with False show ?thesis by auto
  qed
qed

lemma staged_present:
  "key \<in> set keys \<Longrightarrow> \<exists>f. map_of (download_all b keys []) (basename key) = Some f"
proof (induction keys rule: rev_induct)
  case Nil
  then show ?case by simp
next
  case (snoc k keys)
  then show ?case
    by (cases "basename k = basename key") (auto simp: download_all_snoc map_of_write_file)
qed

lemma staged_layout:
  assumes "map_of (download_all b (spec_staged_keys b) []) name = Some f"
  shows "CHR ''/'' \<notin> set name
         \<and> (\<exists>key \<in> set (spec_staged_keys b).
               endswith key (CHR ''/'' # name) \<and> map_of b key = Some f
               \<and> (\<forall>k' \<in> set (spec_staged_keys b). endswith k' (CHR ''/'' # name) \<longrightarrow> k' \<le> key))"
proof -
  from staged_lookup [OF spec_staged_keys_sorted assms] obtain key where
    key: "key \<in> set (spec_staged_keys b)" and base: "basename key = name"
    and f: "f = get_object b key"
    and top: "\<forall>k' \<in> set (spec_staged_keys b). basename k' = name \<longrightarrow> k' \<le> key"
    by blast
  from base have no_slash: "CHR ''/'' \<notin> set name"
    using basename_no_slash [of key] by simp
  from key base have seg: "endswith key (CHR ''/'' # name)"
    using basename_last_segment [OF staged_key_has_slash] by auto
  from key have "map_of b key \<noteq> None"
    by (simp add: spec_staged_keys_set)
  with f have obj: "map_of b key = Some f"
    using get_object_Some [of b key] by simp
  have "\<forall>k' \<in> set (spec_staged_keys b). endswith k' (CHR ''/'' # name) \<longrightarrow> k' \<le> key"
    using top last_segment_basename [OF _ no_slash] by blast
  with key no_slash seg obj show ?thesis by blast
qed

lemma staged_every_key:
  assumes "key \<in> set (spec_staged_keys b)"
  shows "\<exists>name f. endswith key (CHR ''/'' # name) \<and> CHR ''/'' \<notin> set name
           \<and> map_of (download_all b (spec_staged_keys b) []) name = Some f"
  using staged_present [OF assms, of b] basename_last_segment [OF staged_key_has_slash [OF assms]]
    basename_no_slash [of key]
  by blast

text \<open>
  Claim C10. The object-store \<^verbatim>\<open>prepare_data\<close> is the direct \<^verbatim>\<open>prepare_data\<close> run on the
  staged raw directory: the listing loop, over all its pages, collects exactly the keys
  under the prefix that end in \<^verbatim>\<open>.json.gz\<close>, in ascending order, and each is copied to the
  file named by its basename. So the raw directory it leaves holds, for every such key, a
  file named by the last path segment of the key, and every file of it is named by the
  last path segment of such a key, has no slash in its name and holds the object of the
  greatest key with that last segment. The transform reads only the \<^verbatim>\<open>.json.gz\<close> files
  of the raw directory, so whenever the direct variant's raw directory holds the same
  such files as the staged one, both variants return the same result and leave the same
  database. This is the case when the bucket holds under the prefix exactly the raw files
  of the local directory, each under the key prefix plus filename; then the staged
  directory holds the same snapshot files as the local one, under the same names.
\<close>

theorem s4_prepare_data_equivalent:
  "s4_prepare_data b s = prepare_data (s\<lparr>raw_dir := download_all b (spec_staged_keys b) []\<rparr>)
   \<and> sort (list_keys_loop b None []) = spec_staged_keys b
   \<and> raw_dir (snd (s4_prepare_data b s)) = download_all b (spec_staged_keys b) []
   \<and> (\<forall>name f. map_of (raw_dir (snd (s4_prepare_data b s))) name = Some f \<longrightarrow>
          CHR ''/'' \<notin> set name
          \<and> (\<exists>key \<in> set (spec_staged_keys b).
                endswith key (CHR ''/'' # name) \<and> map_of b key = Some f
                \<and> (\<forall>k' \<in> set (spec_staged_keys b).
                      endswith k' (CHR ''/'' # name) \<longrightarrow> k' \<le> key)))
   \<and> (\<forall>key \<in> set (spec_staged_keys b).
          \<exists>name f. endswith key (CHR ''/'' # name) \<and> CHR ''/'' \<notin> set name
            \<and> map_of (raw_dir (snd (s4_prepare_data b s))) name = Some f)
   \<and> ((\<forall>name. endswith name ''.json.gz'' \<longrightarrow>
          map_of (raw_dir s') name = map_of (raw_dir (snd (s4_prepare_data b s))) name) \<longrightarrow>
        fst (s4_prepare_data b s) = fst (prepare_data s')
        \<and> prepared_db (snd (s4_prepare_data b s)) = prepared_db (snd (prepare_data s')))
   \<and> ((\<forall>name \<in> fst ` set (raw_dir s'). CHR ''/'' \<notin> set name)
        \<and> (\<forall>name. endswith name ''.json.gz'' \<longrightarrow>
              map_of (raw_dir s') name = map_of b (S3_PREFIX @ name)) \<longrightarrow>
        (\<forall>name. endswith name ''.json.gz'' \<longrightarrow>
           map_of (raw_dir (snd (s4_prepare_data b s))) name = map_of (raw_dir s') name)
        \<and> fst (s4_prepare_data b s) = fst (prepare_data s')
        \<and> prepared_db (snd (s4_prepare_data b s)) = prepared_db (snd (prepare_data s')))"
proof -
  let ?staged = "download_all b (spec_staged_keys b) []"
  have staged: "raw_dir (snd (s4_prepare_data b s)) = ?staged"
    by (rule s4_staged_raw_dir)
  have layout: "\<forall>name f. map_of (raw_dir (snd (s4_prepare_data b s))) name = Some f \<longrightarrow>
          CHR ''/'' \<notin> set name
          \<and> (\<exists>key \<in> set (spec_staged_keys b).
                endswith key (CHR ''/'' # name) \<and> map_of b key = Some f
                \<and> (\<forall>k' \<in> set (spec_staged_keys b).
                      endswith k' (CHR ''/'' # name) \<longrightarrow> k' \<le> key))"
    using staged_layout [of b] by (simp only: staged) blast
  have every: "\<forall>key \<in> set (spec_staged_keys b).
          \<exists>name f. endswith key (CHR ''/'' # name) \<and> CHR ''/'' \<notin> set name
            \<and> map_of (raw_dir (snd (s4_prepare_data b s))) name = Some f"
    using staged_every_key [of _ b] by (simp only: staged) blast
  have same_view: "fst (s4_prepare_data b s) = fst (prepare_data s')
      \<and> prepared_db (snd (s4_prepare_data b s)) = prepared_db (snd (prepare_data s'))"
    if "\<forall>name. endswith name ''.json.gz'' \<longrightarrow> map_of (raw_dir s') name = map_of ?staged name"
  proof -
    from that have "\<forall>name. endswith name ''.json.gz'' \<longrightarrow>
        map_of (raw_dir (s\<lparr>raw_dir := ?staged\<rparr>)) name = map_of (raw_dir s') name"
      by simp
    from prepare_data_cong [OF this] show ?thesis
      by (simp only: s4_prepare_data_staged)
  qed
  have same_files: "(\<forall>name. endswith name ''.json.gz'' \<longrightarrow>
           map_of (raw_dir (snd (s4_prepare_data b s))) name = map_of (raw_dir s') name)
      \<and> fst (s4_prepare_data b s) = fst (prepare_data s')
      \<and> prepared_db (snd (s4_prepare_data b s)) = prepared_db (snd (prepare_data s'))"
    if names: "\<forall>name \<in> fst ` set (raw_dir s'). CHR ''/'' \<notin> set name"
      and same: "\<forall>name. endswith name ''.json.gz'' \<longrightarrow>
        map_of (raw_dir s') name = map_of b (S3_PREFIX @ name)"
  proof -
    have flat: "\<forall>key \<in> set (spec_staged_keys b). CHR ''/'' \<notin> set (drop (length S3_PREFIX) key)"
    proof
      fix key
      assume key: "key \<in> set (spec_staged_keys b)"
      then obtain n where n: "key = S3_PREFIX @ n"
        by (auto simp: spec_staged_keys_set startswith_iff)
      with key have "endswith n ''.json.gz''" "map_of b (S3_PREFIX @ n) \<noteq> None"
        by (simp_all add: spec_staged_keys_set endswith_S3_PREFIX)
      with same have "map_of (raw_dir s') n \<noteq> None" by simp
      then have "n \<in> fst ` set (raw_dir s')" by (simp add: map_of_eq_None_iff)
      with names have "CHR ''/'' \<notin> set n" by blast
      then show "CHR ''/'' \<notin> set (drop (length S3_PREFIX) key)" by (simp add: n)
    qed
    have view: "\<forall>name. endswith name ''.json.gz'' \<longrightarrow>
        map_of (raw_dir s') name = map_of ?staged name"
      using same staged_file [OF flat] by simp
    from view same_view have "fst (s4_prepare_data b s) = fst (prepare_data s')
      \<and> prepared_db (snd (s4_prepare_data b s)) = prepared_db (snd (prepare_data s'))"
      by blast
    with view show ?thesis
      by (simp only: staged) simp
  qed
  have same_view': "fst (s4_prepare_data b s) = fst (prepare_data s')
      \<and> prepared_db (snd (s4_prepare_data b s)) = prepared_db (snd (prepare_data s'))"
    if "\<forall>name. endswith name ''.json.gz'' \<longrightarrow>
          map_of (raw_dir s') name = map_of (raw_dir (snd (s4_prepare_data b s))) name"
    using that same_view by (simp only: staged)
  from s4_prepare_data_staged [of b s] listed_keys_eq_spec [of b] staged layout every
    same_view' same_files
  show ?thesis
    by (intro conjI impI) blast+
qed

theorem s4_prepare_data_equivalent_witness:
  "fst (s4_prepare_data stats_bucket stale_fs) = Inr ''OK''
   \<and> fst (prepare_data stats_fs) = Inr ''OK''
   \<and> prepared_db (snd (s4_prepare_data stats_bucket stale_fs))
       = prepared_db (snd (prepare_data stats_fs))
   \<and> position_count (snd (s4_prepare_data stats_bucket stale_fs)) = 3
   \<and> spec_staged_keys stats_bucket
       = [''raw/day=20231101/000000Z.json.gz'', ''raw/day=20231101/000005Z.json.gz'',
          ''raw/day=20231101/000010Z.json.gz'']
   \<and> map fst (raw_dir (snd (s4_prepare_data stats_bucket stale_fs)))
       = [''000010Z.json.gz'', ''000005Z.json.gz'', ''000000Z.json.gz'']
   \<and> map_of (raw_dir (snd (s4_prepare_data stats_bucket stale_fs))) ''000005Z.json.gz''
       = map_of (raw_dir stats_fs) ''000005Z.json.gz''
   \<and> spec_staged_keys nested_bucket
       = [''raw/day=20231101/a/000000Z.json.gz'', ''raw/day=20231101/b/000000Z.json.gz'']
   \<and> raw_dir (snd (s4_prepare_data nested_bucket stale_fs))
       = [(''000000Z.json.gz'', empty_snapshot)]"
proof -
  have names: "\<forall>name \<in> fst ` set (raw_dir stats_fs). CHR ''/'' \<notin> set name"
    by (simp add: stats_fs_def)
  have same: "\<forall>name. endswith name ''.json.gz'' \<longrightarrow>
      map_of (raw_dir stats_fs) name = map_of stats_bucket (S3_PREFIX @ name)"
    by (auto simp: stats_fs_def stats_bucket_def S3_PREFIX_def endswith_def)
  note t = s4_prepare_data_equivalent [of stats_bucket stale_fs stats_fs]
  note n = s4_prepare_data_equivalent [of nested_bucket stale_fs stats_fs]
  from t names same have eq: "fst (s4_prepare_data stats_bucket stale_fs) = fst (prepare_data stats_fs)
      \<and> prepared_db (snd (s4_prepare_data stats_bucket stale_fs))
          = prepared_db (snd (prepare_data stats_fs))"
    by blast
  from t names same have files: "\<forall>name. endswith name ''.json.gz'' \<longrightarrow>
      map_of (raw_dir (snd (s4_prepare_data stats_bucket stale_fs))) name
        = map_of (raw_dir stats_fs) name"
    by blast
  have "endswith ''000005Z.json.gz'' ''.json.gz''"
    by (simp add: endswith_def)
  with files have one_file: "map_of (raw_dir (snd (s4_prepare_data stats_bucket stale_fs)))
       ''000005Z.json.gz'' = map_of (raw_dir stats_fs) ''000005Z.json.gz''"
    by blast
  have ok: "fst (prepare_data stats_fs) = Inr ''OK''"
    by (simp add: stats_fs_def stats_obs_def prepare_eval)
  have keys: "spec_staged_keys stats_bucket
       = [''raw/day=20231101/000000Z.json.gz'', ''raw/day=20231101/000005Z.json.gz'',
          ''raw/day=20231101/000010Z.json.gz'']"
    by (simp add: spec_staged_keys_def stats_bucket_def stats_fs_def S3_PREFIX_def
        startswith_def endswith_def)
  from t have "raw_dir (snd (s4_prepare_data stats_bucket stale_fs))
      = download_all stats_bucket (spec_staged_keys stats_bucket) []"
    by blast
  then have staged: "map fst (raw_dir (snd (s4_prepare_data stats_bucket stale_fs)))
       = [''000010Z.json.gz'', ''000005Z.json.gz'', ''000000Z.json.gz'']"
    by (simp add: keys download_all_def basename_def write_file_def)
  have nested_keys: "spec_staged_keys nested_bucket
       = [''raw/day=20231101/a/000000Z.json.gz'', ''raw/day=20231101/b/000000Z.json.gz'']"
    by (simp add: spec_staged_keys_def nested_bucket_def S3_PREFIX_def
        startswith_def endswith_def)
  have copied: "download_all nested_bucket
        [''raw/day=20231101/a/000000Z.json.gz'', ''raw/day=20231101/b/000000Z.json.gz''] []
       = [(''000000Z.json.gz'', empty_snapshot)]"
    by (simp add: download_all_def basename_def write_file_def get_object_def nested_bucket_def)
  from n have "raw_dir (snd (s4_prepare_data nested_bucket stale_fs))
      = download_all nested_bucket (spec_staged_keys nested_bucket) []"
    by blast
  then have nested: "raw_dir (snd (s4_prepare_data nested_bucket stale_fs))
       = [(''000000Z.json.gz'', empty_snapshot)]"
    by (simp only: nested_keys copied)
  show ?thesis
    using eq ok keys staged one_file nested_keys nested
    by (simp add: position_count_def stats_prepared)
qed

end
